theory Spec2Isabelle
  imports Main "HOL-Library.Char_ord" "HOL-Library.List_Lexorder"
    "HOL-Library.Product_Lexorder" "HOL-Library.Multiset"
begin

section \<open>Text\<close>

text \<open>
  A Python \<open>str\<close> is modelled as a \<open>string\<close> whose characters are the code points
  0..255; text with code points beyond that range is outside the model. The character
  classes below are the ones Python's \<open>re\<close> module and \<open>str.strip\<close>, \<open>str.lower\<close>
  use on that range: \<open>\s\<close> is \<open>str.isspace\<close> (tab to carriage return, the four
  separators 28..31, the space, NEL and the no-break space), \<open>\d\<close> is a decimal digit,
  \<open>\w\<close> is \<open>str.isalnum\<close> or the underscore, and \<open>lower\<close> moves the capital
  letters, plain and accented, 32 places up.
\<close>

definition is_space :: "char \<Rightarrow> bool" where
  "is_space c =
     (let n = (of_char c :: nat)
      in (9 \<le> n \<and> n \<le> 13) \<or> (28 \<le> n \<and> n \<le> 32) \<or> n = 133 \<or> n = 160)"

definition is_digit :: "char \<Rightarrow> bool" where
  "is_digit c = (let n = (of_char c :: nat) in 48 \<le> n \<and> n \<le> 57)"

definition is_word :: "char \<Rightarrow> bool" where
  "is_word c =
     (let n = (of_char c :: nat)
      in (48 \<le> n \<and> n \<le> 57) \<or> (65 \<le> n \<and> n \<le> 90) \<or> (97 \<le> n \<and> n \<le> 122) \<or> n = 95
         \<or> n = 170 \<or> n = 178 \<or> n = 179 \<or> n = 181 \<or> n = 185 \<or> n = 186
         \<or> (188 \<le> n \<and> n \<le> 190) \<or> (192 \<le> n \<and> n \<noteq> 215 \<and> n \<noteq> 247))"

definition lower_char :: "char \<Rightarrow> char" where
  "lower_char c =
     (let n = (of_char c :: nat)
      in if (65 \<le> n \<and> n \<le> 90) \<or> (192 \<le> n \<and> n \<le> 222 \<and> n \<noteq> 215)
         then char_of (n + 32) else c)"

definition lower :: "string \<Rightarrow> string" where
  "lower s = map lower_char s"

definition lstrip :: "string \<Rightarrow> string" where
  "lstrip s = dropWhile is_space s"

definition strip :: "string \<Rightarrow> string" where
  "strip s = rev (dropWhile is_space (rev (dropWhile is_space s)))"

text \<open>\<open>s.split(d)\<close> for a one-character separator: always at least one part.\<close>

fun split_on :: "char \<Rightarrow> string \<Rightarrow> string list" where
  "split_on d [] = [[]]"
| "split_on d (c # cs) =
     (if c = d then [] # split_on d cs
      else (case split_on d cs of [] \<Rightarrow> [[c]] | p # ps \<Rightarrow> (c # p) # ps))"

text \<open>
  \<open>int(ds)\<close> on a run of decimal digits, as an unbounded integer: the conversion of
  Python 3.9 as first released. Later releases refuse, by default, a run of more than
  4300 digits with a \<open>ValueError\<close>; that limit is a setting of the interpreter
  (\<open>sys.set_int_max_str_digits\<close>), not of the program, and is not modelled.
\<close>

definition digit_val :: "char \<Rightarrow> int" where
  "digit_val c = int (of_char c) - 48"

definition int_of_digits :: "string \<Rightarrow> int" where
  "int_of_digits ds = foldl (\<lambda>a c. 10 * a + digit_val c) 0 ds"

section \<open>Remote records\<close>

text \<open>
  Identifiers arrive as JSON scalars. \<open>truthy\<close> is Python's truth value of one:
  \<open>None\<close>, \<open>0\<close> and the empty string are false. The records hold the fields the
  program reads, with the types the data model of the specification gives them. An
  identifier or a parent reference \<open>PNone\<close> is a key that is absent or null. In a
  task, \<open>content\<close> \<open>None\<close> is an absent key, and a content that is present is text: a
  task whose content is null or a number, on which \<open>re.match\<close> raises \<open>TypeError\<close>,
  is not a value of the record, and no statement below is about such a task.
  \<open>created_at\<close> and \<open>due\<close> \<open>None\<close> are a key that is absent or null, which the
  program does not tell apart; \<open>labels\<close> is the list the program sees, empty when the
  key is absent. \<open>project_id\<close> is not read by the program; the service filters on it.
\<close>

datatype pyval = PNone | PInt int | PStr string

fun truthy :: "pyval \<Rightarrow> bool" where
  "truthy PNone = False"
| "truthy (PInt n) = (n \<noteq> 0)"
| "truthy (PStr s) = (s \<noteq> [])"

record project =
  pid :: pyval
  pname :: string
  parent_id :: pyval

record task =
  tid :: pyval
  project_id :: pyval
  content :: "string option"
  created_at :: "string option"
  due :: "string option"
  labels :: "pyval list"

record label =
  lid :: pyval
  lname :: string

section \<open>Ordering of tasks\<close>

text \<open>
  \<open>re.match(r"^\s*(\d{2,})\b", content)\<close>: after the leading white space, the
  longest run of digits; it is a match when the run has two digits or more and is
  followed by the end of the text or by a character that is not a word character.
  Giving back digits or white space never turns a failure into a match, since
  a digit is a word character and no white space is a digit.
\<close>

definition match_prefix :: "string \<Rightarrow> string option" where
  "match_prefix s =
     (let t = dropWhile is_space s;
          ds = takeWhile is_digit t;
          r = dropWhile is_digit t
      in if 2 \<le> length ds \<and> (case r of [] \<Rightarrow> True | c # _ \<Rightarrow> \<not> is_word c)
         then Some ds else None)"

text \<open>\<open>d.get(k, "")\<close> and \<open>d.get(k) or ""\<close> on a text field.\<close>

definition or_empty :: "string option \<Rightarrow> string" where
  "or_empty x = (case x of None \<Rightarrow> [] | Some s \<Rightarrow> s)"

definition parse_order_key :: "task \<Rightarrow> int \<times> string" where
  "parse_order_key tsk =
     (let m = match_prefix (or_empty (content tsk));
          prefix = (case m of Some ds \<Rightarrow> int_of_digits ds | None \<Rightarrow> 10 ^ 9);
          created = or_empty (created_at tsk)
      in (prefix, created))"

text \<open>
  \<open>sorted(tasks, key=parse_order_key)\<close>: a stable sort on the key; tuples compare
  lexicographically, strings by code point. A stable sort is determined by its input
  and the key, so the insertion sort \<open>sort_key\<close> returns the list Python returns.
\<close>

definition sort_tasks :: "task list \<Rightarrow> task list" where
  "sort_tasks tasks = sort_key parse_order_key tasks"

section \<open>Resolving a project name\<close>

datatype error = RuntimeError nat string | ValueError | TypeError | KeyError | IndexError

text \<open>The exact-match loop of \<open>get_project_id_by_name\<close>.\<close>

fun exact_match :: "project list \<Rightarrow> string \<Rightarrow> pyval option" where
  "exact_match [] name = None"
| "exact_match (p # ps) name =
     (if lower (strip (pname p)) = lower (strip name) then Some (pid p)
      else exact_match ps name)"

text \<open>
  The two dictionaries of \<open>_resolve_hierarchical_project\<close>, filled in one pass over
  the listing: a later project with the same identifier replaces an earlier one in
  \<open>project_map\<close>; only a parent identifier that is true gets an entry in
  \<open>children_map\<close>.
\<close>

fun build_maps ::
  "project list \<Rightarrow> (pyval \<rightharpoonup> project) \<times> (pyval \<rightharpoonup> pyval list)
     \<Rightarrow> (pyval \<rightharpoonup> project) \<times> (pyval \<rightharpoonup> pyval list)" where
  "build_maps [] (project_map, children_map) = (project_map, children_map)"
| "build_maps (p # ps) (project_map, children_map) =
     build_maps ps
       (project_map(pid p \<mapsto> p),
        if truthy (parent_id p)
        then children_map(parent_id p \<mapsto>
               (case children_map (parent_id p) of None \<Rightarrow> [] | Some cs \<Rightarrow> cs) @ [pid p])
        else children_map)"

fun root_candidates :: "project list \<Rightarrow> string \<Rightarrow> pyval list" where
  "root_candidates [] part0 = []"
| "root_candidates (p # ps) part0 =
     (if \<not> truthy (parent_id p) \<and> lower (strip (pname p)) = lower part0
      then pid p # root_candidates ps part0
      else root_candidates ps part0)"

text \<open>
  The inner loop over \<open>child_ids\<close>: \<open>next_id\<close> starts as \<open>None\<close> and becomes the
  identifier of the first child whose name matches.
\<close>

fun find_child :: "(pyval \<rightharpoonup> project) \<Rightarrow> pyval list \<Rightarrow> string \<Rightarrow> error + pyval" where
  "find_child project_map [] part = Inr PNone"
| "find_child project_map (child_id # child_ids) part =
     (case project_map child_id of
        None \<Rightarrow> Inl KeyError
      | Some child_project \<Rightarrow>
          if lower (strip (pname child_project)) = lower part then Inr child_id
          else find_child project_map child_ids part)"

text \<open>
  The loop over \<open>path_parts[1:]\<close> for one root candidate. The candidate is given up
  when \<open>next_id is None\<close>: when no child matched, and also when the child that
  matched has the identifier \<open>None\<close>.
\<close>

fun traverse ::
  "(pyval \<rightharpoonup> project) \<Rightarrow> (pyval \<rightharpoonup> pyval list) \<Rightarrow> pyval \<Rightarrow> string list
     \<Rightarrow> error + pyval option" where
  "traverse project_map children_map current_id [] = Inr (Some current_id)"
| "traverse project_map children_map current_id (part # parts) =
     (let child_ids = (case children_map current_id of None \<Rightarrow> [] | Some cs \<Rightarrow> cs)
      in case find_child project_map child_ids part of
           Inl e \<Rightarrow> Inl e
         | Inr next_id \<Rightarrow>
             if next_id = PNone then Inr None
             else traverse project_map children_map next_id parts)"

text \<open>The loop over the root candidates: the first whose traversal succeeds.\<close>

fun try_roots ::
  "(pyval \<rightharpoonup> project) \<Rightarrow> (pyval \<rightharpoonup> pyval list) \<Rightarrow> pyval list \<Rightarrow> string list
     \<Rightarrow> error + pyval" where
  "try_roots project_map children_map [] parts = Inr PNone"
| "try_roots project_map children_map (root_id # roots) parts =
     (case traverse project_map children_map root_id parts of
        Inl e \<Rightarrow> Inl e
      | Inr (Some found_id) \<Rightarrow> Inr found_id
      | Inr None \<Rightarrow> try_roots project_map children_map roots parts)"

definition resolve_hierarchical_project :: "project list \<Rightarrow> string \<Rightarrow> error + pyval" where
  "resolve_hierarchical_project projects path =
     (case map strip (split_on CHR ''/'' path) of
        [] \<Rightarrow> Inl IndexError
      | part0 # parts \<Rightarrow>
          (case build_maps projects (Map.empty, Map.empty) of
             (project_map, children_map) \<Rightarrow>
               try_roots project_map children_map (root_candidates projects part0) parts))"

text \<open>
  \<open>get_project_id_by_name\<close> after the listing call: \<open>PNone\<close> is Python's \<open>None\<close>.
\<close>

definition resolve :: "project list \<Rightarrow> string \<Rightarrow> error + pyval" where
  "resolve projects name =
     (case exact_match projects name of
        Some i \<Rightarrow> Inr i
      | None \<Rightarrow>
          if CHR ''/'' \<in> set name then resolve_hierarchical_project projects name
          else Inr PNone)"

section \<open>The client and the remote service\<close>

text \<open>
  Every request the client sends is recorded, in order, in \<open>calls\<close>. The service is
  any function from the requests sent so far to a reply, so it may fail at any point
  and may answer from a state the earlier requests have changed.
\<close>

datatype fields = Due string string | Labels "pyval list"

datatype call =
    ListProjects
  | ListTasks pyval
  | UpdateTask pyval fields
  | ListLabels
  | CreateLabel string

text \<open>
  What \<open>_req\<close> sees: a status of 400 or more with the response text, a response
  without a JSON body, or a JSON body.
\<close>

datatype 'a reply = Failed nat string | NoBody | Body 'a

record remote =
  get_projects :: "call list \<Rightarrow> project list reply"
  get_tasks :: "call list \<Rightarrow> pyval \<Rightarrow> task list reply"
  post_task :: "call list \<Rightarrow> pyval \<Rightarrow> fields \<Rightarrow> unit reply"
  get_labels :: "call list \<Rightarrow> label list reply"
  post_label :: "call list \<Rightarrow> string \<Rightarrow> label reply"

record client =
  calls :: "call list"
  label_cache :: "label list option"

definition req :: "'a reply \<Rightarrow> call \<Rightarrow> client \<Rightarrow> (error + 'a option) \<times> client" where
  "req r k c =
     (case r of
        Failed status txt \<Rightarrow> Inl (RuntimeError status txt)
      | NoBody \<Rightarrow> Inr None
      | Body x \<Rightarrow> Inr (Some x),
      c\<lparr>calls := calls c @ [k]\<rparr>)"

definition list_projects :: "remote \<Rightarrow> client \<Rightarrow> (error + project list option) \<times> client" where
  "list_projects R c = req (get_projects R (calls c)) ListProjects c"

definition get_project_id_by_name ::
  "remote \<Rightarrow> string \<Rightarrow> client \<Rightarrow> (error + pyval) \<times> client" where
  "get_project_id_by_name R name c =
     (case list_projects R c of
        (Inl e, c1) \<Rightarrow> (Inl e, c1)
      | (Inr None, c1) \<Rightarrow> (Inl TypeError, c1)
      | (Inr (Some projects), c1) \<Rightarrow> (resolve projects name, c1))"

definition list_tasks :: "remote \<Rightarrow> pyval \<Rightarrow> client \<Rightarrow> (error + task list) \<times> client" where
  "list_tasks R i c =
     (case req (get_tasks R (calls c) i) (ListTasks i) c of
        (Inl e, c1) \<Rightarrow> (Inl e, c1)
      | (Inr None, c1) \<Rightarrow> (Inr [], c1)
      | (Inr (Some ts), c1) \<Rightarrow> (Inr ts, c1))"

definition update_task :: "remote \<Rightarrow> pyval \<Rightarrow> fields \<Rightarrow> client \<Rightarrow> (error + unit) \<times> client" where
  "update_task R i f c =
     (case req (post_task R (calls c) i f) (UpdateTask i f) c of
        (Inl e, c1) \<Rightarrow> (Inl e, c1)
      | (Inr _, c1) \<Rightarrow> (Inr (), c1))"

definition labels_cached :: "remote \<Rightarrow> client \<Rightarrow> (error + label list) \<times> client" where
  "labels_cached R c =
     (case label_cache c of
        Some ls \<Rightarrow> (Inr ls, c)
      | None \<Rightarrow>
          (case req (get_labels R (calls c)) ListLabels c of
             (Inl e, c1) \<Rightarrow> (Inl e, c1)
           | (Inr None, c1) \<Rightarrow> (Inr [], c1\<lparr>label_cache := Some []\<rparr>)
           | (Inr (Some ls), c1) \<Rightarrow> (Inr ls, c1\<lparr>label_cache := Some ls\<rparr>)))"

fun find_label :: "label list \<Rightarrow> string \<Rightarrow> pyval option" where
  "find_label [] label_name = None"
| "find_label (lab # labs) label_name =
     (if lower (lname lab) = lower label_name then Some (lid lab)
      else find_label labs label_name)"

definition ensure_label :: "remote \<Rightarrow> string \<Rightarrow> client \<Rightarrow> (error + pyval) \<times> client" where
  "ensure_label R label_name0 c =
     (let label_name = lstrip label_name0
      in if label_name = [] then (Inl ValueError, c)
         else case labels_cached R c of
                (Inl e, c1) \<Rightarrow> (Inl e, c1)
              | (Inr labs, c1) \<Rightarrow>
                  (case find_label labs label_name of
                     Some i \<Rightarrow> (Inr i, c1)
                   | None \<Rightarrow>
                       (case req (post_label R (calls c1) label_name) (CreateLabel label_name) c1 of
                          (Inl e, c2) \<Rightarrow> (Inl e, c2)
                        | (Inr None, c2) \<Rightarrow> (Inl TypeError, c2\<lparr>label_cache := None\<rparr>)
                        | (Inr (Some created), c2) \<Rightarrow>
                            (Inr (lid created), c2\<lparr>label_cache := None\<rparr>))))"

section \<open>Promotion\<close>

record cfg =
  project_name :: string
  due_string :: "string option"
  promote_label :: "string option"
  language :: "string option"
  clear_due_on_rest :: "bool option"

datatype status = ok | empty | missing_project

record summary =
  project :: string
  status :: status
  promoted_task :: "string option"
  cleared_due_on :: "nat option"
  labeled :: "bool option"

text \<open>
  \<open>cfg.get("due_string", "today")\<close>, \<open>cfg.get("language", "en")\<close> and the truth value of
  \<open>cfg.get("clear_due_on_rest", True)\<close>.
\<close>

definition cfg_due_string :: "cfg \<Rightarrow> string" where
  "cfg_due_string cf = (case due_string cf of None \<Rightarrow> ''today'' | Some s \<Rightarrow> s)"

definition cfg_language :: "cfg \<Rightarrow> string" where
  "cfg_language cf = (case language cf of None \<Rightarrow> ''en'' | Some s \<Rightarrow> s)"

definition cfg_clear :: "cfg \<Rightarrow> bool" where
  "cfg_clear cf = (case clear_due_on_rest cf of None \<Rightarrow> True | Some b \<Rightarrow> b)"

text \<open>The loop over \<open>rest\<close>; an update that fails ends it with the exception.\<close>

fun clear_rest ::
  "remote \<Rightarrow> string \<Rightarrow> task list \<Rightarrow> nat \<Rightarrow> client \<Rightarrow> (error + nat) \<times> client" where
  "clear_rest R lang [] cleared c = (Inr cleared, c)"
| "clear_rest R lang (tsk # rest) cleared c =
     (if due tsk \<noteq> None
      then (case update_task R (tid tsk) (Due ''no due date'' lang) c of
              (Inl e, c1) \<Rightarrow> (Inl e, c1)
            | (Inr _, c1) \<Rightarrow> clear_rest R lang rest (cleared + 1) c1)
      else clear_rest R lang rest cleared c)"

text \<open>The body of the \<open>try\<close> block.\<close>

definition label_head :: "remote \<Rightarrow> string \<Rightarrow> task \<Rightarrow> client \<Rightarrow> (error + unit) \<times> client" where
  "label_head R plabel head c =
     (case ensure_label R plabel c of
        (Inl e, c1) \<Rightarrow> (Inl e, c1)
      | (Inr label_id, c1) \<Rightarrow>
          if label_id \<notin> set (labels head) \<and> PStr plabel \<notin> set (labels head)
          then update_task R (tid head) (Labels (labels head @ [label_id])) c1
          else (Inr (), c1))"

text \<open>The \<open>try\<close> with its \<open>except Exception\<close>, under \<open>if promote_label\<close>.\<close>

definition labeling :: "remote \<Rightarrow> cfg \<Rightarrow> task \<Rightarrow> client \<Rightarrow> bool \<times> client" where
  "labeling R cf head c =
     (case promote_label cf of
        None \<Rightarrow> (False, c)
      | Some l \<Rightarrow>
          if l = [] then (False, c)
          else (case label_head R l head c of
                  (Inl e, c1) \<Rightarrow> (False, c1)
                | (Inr _, c1) \<Rightarrow> (True, c1)))"

text \<open>\<open>head.get("content", "(unnamed)")\<close>.\<close>

definition title :: "task \<Rightarrow> string" where
  "title t = (case content t of None \<Rightarrow> ''(unnamed)'' | Some s \<Rightarrow> s)"

definition promote_queue :: "remote \<Rightarrow> cfg \<Rightarrow> client \<Rightarrow> (error + summary) \<times> client" where
  "promote_queue R cf c =
     (let pn = project_name cf
      in case get_project_id_by_name R pn c of
           (Inl e, c1) \<Rightarrow> (Inl e, c1)
         | (Inr i, c1) \<Rightarrow>
             if \<not> truthy i
             then (Inr \<lparr>project = pn, status = missing_project, promoted_task = None,
                         cleared_due_on = None, labeled = None\<rparr>, c1)
             else
               (case list_tasks R i c1 of
                  (Inl e, c2) \<Rightarrow> (Inl e, c2)
                | (Inr tasks, c2) \<Rightarrow>
                    if tasks = []
                    then (Inr \<lparr>project = pn, status = empty, promoted_task = None,
                                cleared_due_on = None, labeled = None\<rparr>, c2)
                    else
                      (case sort_tasks tasks of
                         [] \<Rightarrow> (Inl IndexError, c2)
                       | head # rest \<Rightarrow>
                           (let ds = cfg_due_string cf; lang = cfg_language cf
                            in case update_task R (tid head) (Due ds lang) c2 of
                                 (Inl e, c3) \<Rightarrow> (Inl e, c3)
                               | (Inr _, c3) \<Rightarrow>
                                   (case (if cfg_clear cf
                                          then clear_rest R lang rest 0 c3
                                          else (Inr 0, c3)) of
                                      (Inl e, c4) \<Rightarrow> (Inl e, c4)
                                    | (Inr cleared, c4) \<Rightarrow>
                                        (case labeling R cf head c4 of
                                           (was_labeled, c5) \<Rightarrow>
                                             (Inr \<lparr>project = pn, status = ok,
                                                    promoted_task =
                                                      Some (title head),
                                                    cleared_due_on = Some cleared,
                                                    labeled = Some was_labeled\<rparr>, c5)))))))"

section \<open>The numeric prefix as the specification words it\<close>

text \<open>
  The specification's reading of the prefix: a leading run of at least two digits,
  after optional white space, that a boundary with something other than a digit ends.
  The run of digits after the white space, taken whole, ends before a character that
  is no digit or at the end of the text; it is the prefix when it has two digits or
  more. \<open>spec_order_key\<close> is the sorting key with that prefix.
\<close>

definition spec_prefix :: "string \<Rightarrow> string option" where
  "spec_prefix s =
     (let ds = takeWhile is_digit (dropWhile is_space s)
      in if 2 \<le> length ds then Some ds else None)"

definition spec_order_key :: "task \<Rightarrow> int \<times> string" where
  "spec_order_key tsk =
     (case spec_prefix (or_empty (content tsk)) of
        Some ds \<Rightarrow> int_of_digits ds
      | None \<Rightarrow> 10 ^ 9,
      or_empty (created_at tsk))"

section \<open>Hierarchical resolution as the specification words it\<close>

text \<open>
  The specification's reading of a path, written on the listing itself, without the
  two dictionaries: a root has no parent, the children of a node are the projects
  whose parent is that node, in listing order, and a name matches a segment when its
  trimmed, lower-cased form equals the segment's.
\<close>

definition name_matches :: "project \<Rightarrow> string \<Rightarrow> bool" where
  "name_matches p seg = (lower (strip (pname p)) = lower seg)"

definition spec_roots :: "project list \<Rightarrow> string \<Rightarrow> project list" where
  "spec_roots ps seg = filter (\<lambda>p. parent_id p = PNone \<and> name_matches p seg) ps"

definition spec_children :: "project list \<Rightarrow> pyval \<Rightarrow> project list" where
  "spec_children ps node = filter (\<lambda>p. parent_id p \<noteq> PNone \<and> parent_id p = node) ps"

fun spec_walk :: "project list \<Rightarrow> pyval \<Rightarrow> string list \<Rightarrow> pyval option" where
  "spec_walk ps node [] = Some node"
| "spec_walk ps node (seg # segs) =
     (case find (\<lambda>p. name_matches p seg) (spec_children ps node) of
        None \<Rightarrow> None
      | Some child \<Rightarrow> spec_walk ps (pid child) segs)"

fun spec_first_root :: "project list \<Rightarrow> project list \<Rightarrow> string list \<Rightarrow> pyval" where
  "spec_first_root ps [] segs = PNone"
| "spec_first_root ps (r # rs) segs =
     (case spec_walk ps (pid r) segs of
        Some found \<Rightarrow> found
      | None \<Rightarrow> spec_first_root ps rs segs)"

definition spec_resolve_path :: "project list \<Rightarrow> string \<Rightarrow> pyval" where
  "spec_resolve_path ps path =
     (case map strip (split_on CHR ''/'' path) of
        [] \<Rightarrow> PNone
      | seg0 # segs \<Rightarrow> spec_first_root ps (spec_roots ps seg0) segs)"

text \<open>
  The same reading with Python's truth value deciding whether a project has a parent:
  a root is a project whose parent reference is absent, null, \<open>0\<close> or the empty
  string, and the children of a node are the projects whose parent reference is a
  true value equal to the node's identifier.
\<close>

definition roots_by_truth :: "project list \<Rightarrow> string \<Rightarrow> project list" where
  "roots_by_truth ps seg = filter (\<lambda>p. \<not> truthy (parent_id p) \<and> name_matches p seg) ps"

definition children_by_truth :: "project list \<Rightarrow> pyval \<Rightarrow> project list" where
  "children_by_truth ps node = filter (\<lambda>p. truthy (parent_id p) \<and> parent_id p = node) ps"

fun walk_by_truth :: "project list \<Rightarrow> pyval \<Rightarrow> string list \<Rightarrow> pyval option" where
  "walk_by_truth ps node [] = Some node"
| "walk_by_truth ps node (seg # segs) =
     (case find (\<lambda>p. name_matches p seg) (children_by_truth ps node) of
        None \<Rightarrow> None
      | Some child \<Rightarrow> walk_by_truth ps (pid child) segs)"

fun first_root_by_truth :: "project list \<Rightarrow> project list \<Rightarrow> string list \<Rightarrow> pyval" where
  "first_root_by_truth ps [] segs = PNone"
| "first_root_by_truth ps (r # rs) segs =
     (case walk_by_truth ps (pid r) segs of
        Some found \<Rightarrow> found
      | None \<Rightarrow> first_root_by_truth ps rs segs)"

definition resolve_path_by_truth :: "project list \<Rightarrow> string \<Rightarrow> pyval" where
  "resolve_path_by_truth ps path =
     (case map strip (split_on CHR ''/'' path) of
        [] \<Rightarrow> PNone
      | seg0 # segs \<Rightarrow> first_root_by_truth ps (roots_by_truth ps seg0) segs)"

section \<open>A reference service\<close>

text \<open>
  The service is not part of the repository. \<open>store_remote\<close> is a service that never
  fails and has no other client, written from the interface section of the
  specification: an update with a due directive sets the task's due date, the
  directive \<open>no due date\<close> removes it, an update with a label set replaces the task's
  labels, and creating a label adds it to the label listing. Its state after a
  sequence of requests is the initial store with each request applied in turn.
\<close>

record store =
  st_projects :: "project list"
  st_tasks :: "task list"
  st_labels :: "label list"

fun apply_fields :: "fields \<Rightarrow> task \<Rightarrow> task" where
  "apply_fields (Due ds lang) t =
     t\<lparr>due := (if ds = ''no due date'' then None else Some ds)\<rparr>"
| "apply_fields (Labels ls) t = t\<lparr>labels := ls\<rparr>"

definition new_label :: "store \<Rightarrow> string \<Rightarrow> label" where
  "new_label st n = \<lparr>lid = PInt (int (length (st_labels st)) + 1), lname = n\<rparr>"

fun apply_call :: "store \<Rightarrow> call \<Rightarrow> store" where
  "apply_call st (UpdateTask i f) =
     st\<lparr>st_tasks := map (\<lambda>t. if tid t = i then apply_fields f t else t) (st_tasks st)\<rparr>"
| "apply_call st (CreateLabel n) = st\<lparr>st_labels := st_labels st @ [new_label st n]\<rparr>"
| "apply_call st ListProjects = st"
| "apply_call st (ListTasks i) = st"
| "apply_call st ListLabels = st"

definition store_after :: "store \<Rightarrow> call list \<Rightarrow> store" where
  "store_after st h = foldl apply_call st h"

definition store_remote :: "store \<Rightarrow> remote" where
  "store_remote st =
     \<lparr>get_projects = (\<lambda>h. Body (st_projects (store_after st h))),
      get_tasks = (\<lambda>h i. Body (filter (\<lambda>t. project_id t = i) (st_tasks (store_after st h)))),
      post_task = (\<lambda>h i f. NoBody),
      get_labels = (\<lambda>h. Body (st_labels (store_after st h))),
      post_label = (\<lambda>h n. Body (new_label (store_after st h) n))\<rparr>"

text \<open>A client that has sent nothing yet.\<close>

definition fresh_client :: client where
  "fresh_client = \<lparr>calls = [], label_cache = None\<rparr>"

section \<open>Notions for the statements\<close>

text \<open>The requests the demoting step sends for a list of tasks, in order.\<close>

definition clear_calls :: "string \<Rightarrow> task list \<Rightarrow> call list" where
  "clear_calls lang rest =
     map (\<lambda>t. UpdateTask (tid t) (Due ''no due date'' lang)) (filter (\<lambda>t. due t \<noteq> None) rest)"

fun is_due_write :: "call \<Rightarrow> bool" where
  "is_due_write (UpdateTask i (Due ds lang)) = True"
| "is_due_write k = False"

fun is_label_write :: "call \<Rightarrow> bool" where
  "is_label_write (UpdateTask i (Labels ls)) = True"
| "is_label_write k = False"

text \<open>
  The client as it stands when the labeling step begins, after the two listings, the
  write to the head and the writes to the rest.
\<close>

definition before_labeling :: "cfg \<Rightarrow> client \<Rightarrow> pyval \<Rightarrow> task \<Rightarrow> task list \<Rightarrow> client" where
  "before_labeling cf c i head rest =
     c\<lparr>calls := calls c @
          [ListProjects, ListTasks i,
           UpdateTask (tid head) (Due (cfg_due_string cf) (cfg_language cf))]
          @ (if cfg_clear cf then clear_calls (cfg_language cf) rest else [])\<rparr>"

text \<open>What a sequence of requests does to one task of the reference service.\<close>

fun touch :: "task \<Rightarrow> call \<Rightarrow> task" where
  "touch t (UpdateTask i f) = (if tid t = i then apply_fields f t else t)"
| "touch t k = t"

definition task_after :: "call list \<Rightarrow> task \<Rightarrow> task" where
  "task_after h t = foldl touch t h"

text \<open>The requests that only read or create labels.\<close>

fun is_label_admin :: "call \<Rightarrow> bool" where
  "is_label_admin ListLabels = True"
| "is_label_admin (CreateLabel n) = True"
| "is_label_admin k = False"

text \<open>The summary of a run that promoted \<open>head\<close>.\<close>

definition result_ok :: "cfg \<Rightarrow> task \<Rightarrow> nat \<Rightarrow> bool \<Rightarrow> summary" where
  "result_ok cf head n b = \<lparr>project = project_name cf, status = ok,
     promoted_task = Some (title head), cleared_due_on = Some n, labeled = Some b\<rparr>"

section \<open>Example data\<close>

text \<open>The queue of the specification's scenario, in project \<open>p1\<close> under \<open>Chores\<close>.\<close>

definition ex_dishes :: task where
  "ex_dishes = \<lparr>tid = PStr ''a'', project_id = PStr ''p1'', content = Some ''10 dishes'',
     created_at = Some ''2024-01-01T08:00:00Z'', due = None, labels = []\<rparr>"

definition ex_trash :: task where
  "ex_trash = \<lparr>tid = PStr ''b'', project_id = PStr ''p1'', content = Some ''02 trash'',
     created_at = Some ''2024-01-02T08:00:00Z'', due = Some ''2024-01-01'', labels = []\<rparr>"

definition ex_wipe :: task where
  "ex_wipe = \<lparr>tid = PStr ''c'', project_id = PStr ''p1'', content = Some ''wipe counters'',
     created_at = Some ''2024-01-03T08:00:00Z'', due = Some ''2024-01-05'', labels = []\<rparr>"

text \<open>A task whose prefix is above the value given to tasks without one.\<close>

definition ex_big :: task where
  "ex_big = \<lparr>tid = PStr ''d'', project_id = PStr ''p1'', content = Some ''1000000001 attic'',
     created_at = Some ''2024-01-01T08:00:00Z'', due = None, labels = []\<rparr>"

definition ex_projects :: "project list" where
  "ex_projects =
     [\<lparr>pid = PStr ''p0'', pname = ''Chores'', parent_id = PNone\<rparr>,
      \<lparr>pid = PStr ''p1'', pname = ''Rotating Chore Queue'', parent_id = PStr ''p0''\<rparr>,
      \<lparr>pid = PStr ''p2'', pname = ''chores/rotating chore queue'', parent_id = PNone\<rparr>,
      \<lparr>pid = PStr ''p3'', pname = ''Garden'', parent_id = PNone\<rparr>]"

definition ex_store :: store where
  "ex_store = \<lparr>st_projects = ex_projects, st_tasks = [ex_dishes, ex_trash, ex_wipe],
     st_labels = []\<rparr>"

definition ex_cfg :: cfg where
  "ex_cfg = \<lparr>project_name = ''Chores / Rotating Chore Queue'', due_string = Some ''today'',
     promote_label = Some ''@next'', language = Some ''en'', clear_due_on_rest = Some True\<rparr>"

text \<open>A listing whose only project has the identifier 0.\<close>

definition ex_zero_projects :: "project list" where
  "ex_zero_projects = [\<lparr>pid = PInt 0, pname = ''Attic'', parent_id = PNone\<rparr>]"

definition ex_zero_store :: store where
  "ex_zero_store = \<lparr>st_projects = ex_zero_projects, st_tasks = [], st_labels = []\<rparr>"

text \<open>The reference service over the scenario, except that listing labels fails.\<close>

definition flaky_remote :: remote where
  "flaky_remote = (store_remote ex_store)\<lparr>get_labels := (\<lambda>h. Failed 503 ''unavailable'')\<rparr>"

text \<open>The scenario with the label present and already on the task that will be head.\<close>

definition ex_labeled_store :: store where
  "ex_labeled_store =
     \<lparr>st_projects = ex_projects,
      st_tasks = [ex_dishes, ex_trash\<lparr>labels := [PInt 7]\<rparr>, ex_wipe],
      st_labels = [\<lparr>lid = PInt 7, lname = ''@Next''\<rparr>]\<rparr>"

text \<open>
  Two tasks created at the same moment: in one the digits are followed by letters, in
  the other by a space.
\<close>

definition ex_12abc :: task where
  "ex_12abc = \<lparr>tid = PStr ''e'', project_id = PStr ''p1'', content = Some ''12abc task'',
     created_at = Some ''2024-01-01T08:00:00Z'', due = None, labels = []\<rparr>"

definition ex_13 :: task where
  "ex_13 = \<lparr>tid = PStr ''f'', project_id = PStr ''p1'', content = Some ''13 task'',
     created_at = Some ''2024-01-01T08:00:00Z'', due = None, labels = []\<rparr>"

text \<open>A root with the identifier 0 and the project listed as its child.\<close>

definition ex_zero_forest :: "project list" where
  "ex_zero_forest =
     [\<lparr>pid = PInt 0, pname = ''A'', parent_id = PNone\<rparr>,
      \<lparr>pid = PInt 1, pname = ''b'', parent_id = PInt 0\<rparr>]"

text \<open>
  Two roots of the same name, each with a child \<open>B\<close>; the child of the first has the
  identifier \<open>None\<close>.
\<close>

definition ex_null_forest :: "project list" where
  "ex_null_forest =
     [\<lparr>pid = PStr ''r1'', pname = ''A'', parent_id = PNone\<rparr>,
      \<lparr>pid = PNone, pname = ''B'', parent_id = PStr ''r1''\<rparr>,
      \<lparr>pid = PStr ''r2'', pname = ''A'', parent_id = PNone\<rparr>,
      \<lparr>pid = PStr ''x'', pname = ''B'', parent_id = PStr ''r2''\<rparr>]"

text \<open>
  The scenario with the configured label text already on the task that will be head,
  on a service that refuses to list labels.
\<close>

definition ex_tagged :: task where
  "ex_tagged = ex_trash\<lparr>labels := [PStr ''@next'']\<rparr>"

definition ex_tagged_store :: store where
  "ex_tagged_store = \<lparr>st_projects = ex_projects, st_tasks = [ex_dishes, ex_tagged, ex_wipe],
     st_labels = []\<rparr>"

definition flaky_tagged_remote :: remote where
  "flaky_tagged_remote =
     (store_remote ex_tagged_store)\<lparr>get_labels := (\<lambda>h. Failed 503 ''unavailable'')\<rparr>"

section \<open>Properties of the ordering\<close>

lemma digit_is_word: "is_digit c \<Longrightarrow> is_word c"
  by (simp add: is_digit_def is_word_def Let_def)

lemma digit_not_space: "is_digit c \<Longrightarrow> \<not> is_space c"
  by (auto simp add: is_digit_def is_space_def Let_def)

lemma match_prefix_iff:
  "match_prefix s = Some ds \<longleftrightarrow>
     (\<exists>ws r. s = ws @ ds @ r \<and> (\<forall>c\<in>set ws. is_space c) \<and> (\<forall>c\<in>set ds. is_digit c)
        \<and> 2 \<le> length ds \<and> (r = [] \<or> \<not> is_word (hd r)))"
proof
  assume m: "match_prefix s = Some ds"
  let ?t = "dropWhile is_space s"
  from m have ds: "ds = takeWhile is_digit ?t" and len: "2 \<le> length ds"
    and r: "dropWhile is_digit ?t = [] \<or> \<not> is_word (hd (dropWhile is_digit ?t))"
    by (auto simp add: match_prefix_def Let_def split: if_splits list.splits)
  have "s = takeWhile is_space s @ ds @ dropWhile is_digit ?t"
    by (simp add: ds)
  moreover have "\<forall>c\<in>set (takeWhile is_space s). is_space c"
    by (auto dest: set_takeWhileD)
  moreover have "\<forall>c\<in>set ds. is_digit c"
    by (auto simp add: ds dest: set_takeWhileD)
  ultimately show "\<exists>ws r. s = ws @ ds @ r \<and> (\<forall>c\<in>set ws. is_space c)
        \<and> (\<forall>c\<in>set ds. is_digit c) \<and> 2 \<le> length ds \<and> (r = [] \<or> \<not> is_word (hd r))"
    using len r by blast
next
  assume "\<exists>ws r. s = ws @ ds @ r \<and> (\<forall>c\<in>set ws. is_space c) \<and> (\<forall>c\<in>set ds. is_digit c)
        \<and> 2 \<le> length ds \<and> (r = [] \<or> \<not> is_word (hd r))"
  then obtain ws r where s: "s = ws @ ds @ r" and ws: "\<forall>c\<in>set ws. is_space c"
    and dg: "\<forall>c\<in>set ds. is_digit c" and len: "2 \<le> length ds"
    and r: "r = [] \<or> \<not> is_word (hd r)" by blast
  from len obtain d ds' where dd: "ds = d # ds'" by (cases ds) auto
  with dg have "\<not> is_space d" by (simp add: digit_not_space)
  with ws have t: "dropWhile is_space s = ds @ r"
    by (simp add: s dd dropWhile_append)
  from r have r': "r = [] \<or> \<not> is_digit (hd r)" using digit_is_word by blast
  have tk: "takeWhile is_digit (ds @ r) = ds"
    using dg r' by (cases r) (auto simp add: takeWhile_append)
  have dk: "dropWhile is_digit (ds @ r) = r"
    using dg r' by (cases r) (auto simp add: dropWhile_append)
  have "match_prefix s =
      (if 2 \<le> length ds \<and> (case r of [] \<Rightarrow> True | c # _ \<Rightarrow> \<not> is_word c) then Some ds else None)"
    by (simp only: match_prefix_def Let_def t tk dk)
  then show "match_prefix s = Some ds"
    using len r by (cases r) auto
qed

lemma key_less_iff:
  "parse_order_key a < parse_order_key b \<longleftrightarrow>
     fst (parse_order_key a) < fst (parse_order_key b)
     \<or> fst (parse_order_key a) = fst (parse_order_key b)
       \<and> or_empty (created_at a) < or_empty (created_at b)"
  by (auto simp add: parse_order_key_def Let_def less_prod_def')

lemma prefix_02: "fst (parse_order_key (t\<lparr>content := Some (''02 '' @ u)\<rparr>)) = 2"
  by (simp add: parse_order_key_def or_empty_def match_prefix_def is_space_def is_digit_def
      is_word_def int_of_digits_def digit_val_def)

lemma prefix_10: "fst (parse_order_key (t\<lparr>content := Some (''10 '' @ u)\<rparr>)) = 10"
  by (simp add: parse_order_key_def or_empty_def match_prefix_def is_space_def is_digit_def
      is_word_def int_of_digits_def digit_val_def)

lemma sorted_sort_tasks: "sorted (map parse_order_key (sort_tasks ts))"
  by (simp add: sort_tasks_def)

lemma sort_tasks_Nil: "sort_tasks ts = [] \<longleftrightarrow> ts = []"
proof -
  have "length (sort_tasks ts) = length ts" by (simp add: sort_tasks_def)
  then show ?thesis by (metis length_0_conv)
qed

lemma head_least:
  assumes "sort_tasks ts = h # r" "t \<in> set ts"
  shows "parse_order_key h \<le> parse_order_key t"
proof -
  have "sorted (map parse_order_key (h # r))" using sorted_sort_tasks[of ts] assms by simp
  moreover have "t \<in> set (h # r)" using assms by (metis set_sort sort_tasks_def)
  ultimately show ?thesis by auto
qed

text \<open>
  C1, as stated, fails: a run of digits that a letter ends is a prefix in the
  specification's wording, since a character that is no digit ends it, but not for the
  program, whose pattern asks for a word boundary after the digits. The content
  \<open>12abc task\<close> has the prefix 12 in that wording and would stand before \<open>13 task\<close>;
  the program gives it no prefix and puts it last.
\<close>

theorem letters_after_digits_no_prefix:
  "spec_prefix ''12abc task'' = Some ''12''
   \<and> match_prefix ''12abc task'' = None
   \<and> spec_order_key ex_12abc < spec_order_key ex_13
   \<and> parse_order_key ex_13 < parse_order_key ex_12abc
   \<and> sort_tasks [ex_12abc, ex_13] = [ex_13, ex_12abc]"
  by code_simp

text \<open>
  C1, amended. The ordering function returns the tasks sorted ascending on the pair
  (numeric prefix, creation text), as a stable rearrangement of its input. Pairs
  compare on the prefix first and on the creation text, lexicographically, when the
  prefixes are equal. The prefix is read from a run of two or more digits that follows
  optional white space and ends at the end of the text or before a character that is
  not a letter, digit or underscore; its value is the integer the digits spell, and a
  content without such a run has the value \<open>10 ^ 9\<close>. A content starting \<open>02 \<close> has
  prefix 2, one starting \<open>10 \<close> has prefix 10, and the first has the smaller key. The
  head of the queue, the first element of the sorted list, has the least key of all
  tasks.
\<close>

theorem sort_tasks_ascending:
  "sorted (map parse_order_key (sort_tasks ts))
   \<and> mset (sort_tasks ts) = mset ts
   \<and> (\<forall>k. filter (\<lambda>t. parse_order_key t = k) (sort_tasks ts)
            = filter (\<lambda>t. parse_order_key t = k) ts)
   \<and> (parse_order_key a < parse_order_key b \<longleftrightarrow>
        fst (parse_order_key a) < fst (parse_order_key b)
        \<or> fst (parse_order_key a) = fst (parse_order_key b)
          \<and> or_empty (created_at a) < or_empty (created_at b))
   \<and> (match_prefix s = Some ds \<longleftrightarrow>
        (\<exists>ws r. s = ws @ ds @ r \<and> (\<forall>c\<in>set ws. is_space c) \<and> (\<forall>c\<in>set ds. is_digit c)
           \<and> 2 \<le> length ds \<and> (r = [] \<or> \<not> is_word (hd r))))
   \<and> (match_prefix (or_empty (content a)) = Some ds
        \<longrightarrow> fst (parse_order_key a) = int_of_digits ds)
   \<and> (match_prefix (or_empty (content a)) = None
        \<longrightarrow> fst (parse_order_key a) = 10 ^ 9)
   \<and> fst (parse_order_key (a\<lparr>content := Some (''02 '' @ u)\<rparr>)) = 2
   \<and> fst (parse_order_key (b\<lparr>content := Some (''10 '' @ v)\<rparr>)) = 10
   \<and> parse_order_key (a\<lparr>content := Some (''02 '' @ u)\<rparr>)
       < parse_order_key (b\<lparr>content := Some (''10 '' @ v)\<rparr>)
   \<and> (\<forall>h rest. sort_tasks ts = h # rest
        \<longrightarrow> (\<forall>t\<in>set ts. parse_order_key h \<le> parse_order_key t))"
proof -
  have c2: "mset (sort_tasks ts) = mset ts" by (simp add: sort_tasks_def)
  have c3: "\<forall>k. filter (\<lambda>t. parse_order_key t = k) (sort_tasks ts)
            = filter (\<lambda>t. parse_order_key t = k) ts"
    by (simp add: sort_tasks_def sort_key_stable)
  have c6: "match_prefix (or_empty (content a)) = Some ds
        \<longrightarrow> fst (parse_order_key a) = int_of_digits ds"
    by (simp add: parse_order_key_def Let_def)
  have c7: "match_prefix (or_empty (content a)) = None
        \<longrightarrow> fst (parse_order_key a) = 10 ^ 9"
    by (simp add: parse_order_key_def Let_def)
  have c10: "parse_order_key (a\<lparr>content := Some (''02 '' @ u)\<rparr>)
       < parse_order_key (b\<lparr>content := Some (''10 '' @ v)\<rparr>)"
    using prefix_02[where t = a and u = u] prefix_10[where t = b and u = v]
    by (simp add: key_less_iff)
  have c11: "\<forall>h rest. sort_tasks ts = h # rest
        \<longrightarrow> (\<forall>t\<in>set ts. parse_order_key h \<le> parse_order_key t)"
    using head_least by blast
  from c2 c3 c6 c7 c10 c11 show ?thesis
    using sorted_sort_tasks[of ts] key_less_iff[of a b] match_prefix_iff[of s ds]
      prefix_02[where t = a and u = u] prefix_10[where t = b and u = v]
    by blast
qed

theorem sort_tasks_ascending_witness:
  "sort_tasks [ex_dishes, ex_trash, ex_wipe] = [ex_trash, ex_dishes, ex_wipe]
   \<and> parse_order_key ex_trash \<le> parse_order_key ex_dishes
   \<and> parse_order_key ex_trash \<le> parse_order_key ex_wipe
   \<and> match_prefix ''02 trash'' = Some ''02''
   \<and> fst (parse_order_key ex_trash) = 2"
proof -
  have s: "sort_tasks [ex_dishes, ex_trash, ex_wipe] = [ex_trash, ex_dishes, ex_wipe]"
    by code_simp
  have m: "match_prefix (or_empty (content ex_trash)) = Some ''02''"
    by code_simp
  have m': "match_prefix ''02 trash'' = Some ''02''"
    by code_simp
  have i: "int_of_digits ''02'' = 2"
    by (simp add: int_of_digits_def digit_val_def)
  from sort_tasks_ascending[where ts = "[ex_dishes, ex_trash, ex_wipe]" and a = ex_trash
      and b = ex_dishes and s = "''02 trash''" and ds = "''02''" and u = "[]" and v = "[]"]
    s m m' i
  show ?thesis by simp
qed

text \<open>
  C2, as stated, fails: a prefix is compared with the fixed value \<open>10 ^ 9\<close> that
  tasks without a prefix receive, so a task whose prefix is larger sorts after a task
  without one.
\<close>

theorem big_prefix_sorts_last:
  "match_prefix (or_empty (content ex_big)) = Some ''1000000001''
   \<and> match_prefix (or_empty (content ex_wipe)) = None
   \<and> parse_order_key ex_wipe < parse_order_key ex_big
   \<and> sort_tasks [ex_big, ex_wipe] = [ex_wipe, ex_big]"
  by code_simp

text \<open>
  C2, amended. A task whose content carries a numeric prefix of value below \<open>10 ^ 9\<close>
  has a strictly smaller key than any task whose content carries none, whatever the
  creation texts are, and so stands before it in every sorted queue that holds both.
\<close>

theorem prefixed_before_unprefixed:
  assumes a: "match_prefix (or_empty (content a)) = Some ds"
    and small: "int_of_digits ds < 10 ^ 9"
    and b: "match_prefix (or_empty (content b)) = None"
  shows "parse_order_key a < parse_order_key b
    \<and> (\<forall>i j. i < length (sort_tasks ts) \<and> j < length (sort_tasks ts)
          \<and> sort_tasks ts ! i = a \<and> sort_tasks ts ! j = b \<longrightarrow> i < j)"
proof -
  have lt: "parse_order_key a < parse_order_key b"
    using a small b by (simp add: parse_order_key_def Let_def less_prod_def')
  have "i < j" if ij: "i < length (sort_tasks ts)" "j < length (sort_tasks ts)"
    "sort_tasks ts ! i = a" "sort_tasks ts ! j = b" for i j
  proof (rule ccontr)
    assume "\<not> i < j"
    then have "j \<le> i" by simp
    with sorted_sort_tasks[of ts] ij(1)
    have "map parse_order_key (sort_tasks ts) ! j \<le> map parse_order_key (sort_tasks ts) ! i"
      by (simp add: sorted_iff_nth_mono del: nth_map)
    with ij have "parse_order_key b \<le> parse_order_key a" by simp
    with lt show False by simp
  qed
  with lt show ?thesis by blast
qed

theorem prefixed_before_unprefixed_witness:
  "parse_order_key ex_trash < parse_order_key ex_wipe"
proof -
  have a: "match_prefix (or_empty (content ex_trash)) = Some ''02''" by code_simp
  have s: "int_of_digits ''02'' < 10 ^ 9" by (simp add: int_of_digits_def digit_val_def)
  have b: "match_prefix (or_empty (content ex_wipe)) = None" by code_simp
  from prefixed_before_unprefixed[OF a s b] show ?thesis by simp
qed

section \<open>The requests of a run\<close>

lemma req_client: "req r k c = (x, c') \<Longrightarrow> c' = c\<lparr>calls := calls c @ [k]\<rparr>"
  by (simp add: req_def)

lemma update_task_client:
  "update_task R i f c = (x, c') \<Longrightarrow> c' = c\<lparr>calls := calls c @ [UpdateTask i f]\<rparr>"
  by (cases "post_task R (calls c) i f") (auto simp add: update_task_def req_def)

lemma list_tasks_client:
  "list_tasks R i c = (x, c') \<Longrightarrow> c' = c\<lparr>calls := calls c @ [ListTasks i]\<rparr>"
  by (cases "get_tasks R (calls c) i") (auto simp add: list_tasks_def req_def)

lemma clear_rest_Inr:
  "clear_rest R lang rest n c = (Inr m, c') \<Longrightarrow>
     c' = c\<lparr>calls := calls c @ clear_calls lang rest\<rparr>
     \<and> m = n + length (filter (\<lambda>t. due t \<noteq> None) rest)"
proof (induction rest arbitrary: n c)
  case Nil
  then show ?case by (simp add: clear_calls_def)
next
  case (Cons t rest)
  show ?case
  proof (cases "due t = None")
    case True
    with Cons.prems have "clear_rest R lang rest n c = (Inr m, c')" by simp
    from Cons.IH[OF this] True show ?thesis by (simp add: clear_calls_def)
  next
    case False
    obtain x c1 where u: "update_task R (tid t) (Due ''no due date'' lang) c = (x, c1)"
      by (cases "update_task R (tid t) (Due ''no due date'' lang) c")
    have c1: "c1 = c\<lparr>calls := calls c @ [UpdateTask (tid t) (Due ''no due date'' lang)]\<rparr>"
      using u by (rule update_task_client)
    show ?thesis
    proof (cases x)
      case (Inl e)
      with Cons.prems False u show ?thesis by simp
    next
      case (Inr y)
      with Cons.prems False u have "clear_rest R lang rest (n + 1) c1 = (Inr m, c')" by simp
      from Cons.IH[OF this] show ?thesis using False by (simp add: c1 clear_calls_def)
    qed
  qed
qed

lemma labels_cached_calls:
  assumes "labels_cached R c = (x, c')"
  shows "calls c' = calls c \<or> calls c' = calls c @ [ListLabels]"
proof (cases "label_cache c")
  case (Some ls)
  with assms show ?thesis by (simp add: labels_cached_def)
next
  case None
  with assms show ?thesis
    by (cases "get_labels R (calls c)") (auto simp add: labels_cached_def req_def)
qed


lemma ensure_label_calls:
  assumes e: "ensure_label R l c = (x, c')"
  shows "\<exists>lc. calls c' = calls c @ lc \<and> (\<forall>k\<in>set lc. is_label_admin k)"
proof (cases "lstrip l = []")
  case True
  with e show ?thesis by (simp add: ensure_label_def)
next
  case False
  obtain y c1 where lc: "labels_cached R c = (y, c1)" by (cases "labels_cached R c")
  from labels_cached_calls[OF lc]
  have c1: "\<exists>lc. calls c1 = calls c @ lc \<and> (\<forall>k\<in>set lc. is_label_admin k)"
    by (metis append_Nil2 empty_iff empty_set is_label_admin.simps(1) set_ConsD)
  show ?thesis
  proof (cases y)
    case (Inl err)
    with e False lc have "c' = c1" by (simp add: ensure_label_def)
    with c1 show ?thesis by simp
  next
    case (Inr labs)
    show ?thesis
    proof (cases "find_label labs (lstrip l)")
      case (Some i)
      with e False lc Inr have "c' = c1" by (simp add: ensure_label_def)
      with c1 show ?thesis by simp
    next
      case None
      have "calls c' = calls c1 @ [CreateLabel (lstrip l)]"
        using e False lc Inr None
        by (cases "post_label R (calls c1) (lstrip l)") (auto simp add: ensure_label_def req_def)
      with c1 show ?thesis by auto
    qed
  qed
qed

lemma label_head_calls:
  assumes a: "label_head R l head c = (x, c')"
  shows "\<exists>lc. calls c' = calls c @ lc \<and> (\<forall>k\<in>set lc. \<not> is_due_write k)"
proof -
  obtain y c1 where e: "ensure_label R l c = (y, c1)" by (cases "ensure_label R l c")
  from ensure_label_calls[OF e] obtain lc where lc: "calls c1 = calls c @ lc"
    "\<forall>k\<in>set lc. is_label_admin k" by blast
  have nd: "\<forall>k\<in>set lc. \<not> is_due_write k"
  proof
    fix k assume "k \<in> set lc"
    with lc have "is_label_admin k" by simp
    then show "\<not> is_due_write k" by (cases k) auto
  qed
  show ?thesis
  proof (cases y)
    case (Inl err)
    with a e have "c' = c1" by (simp add: label_head_def)
    with lc nd show ?thesis by auto
  next
    case (Inr lab)
    show ?thesis
    proof (cases "lab \<notin> set (labels head) \<and> PStr l \<notin> set (labels head)")
      case True
      with a e Inr have "update_task R (tid head) (Labels (labels head @ [lab])) c1 = (x, c')"
        by (simp add: label_head_def)
      from update_task_client[OF this] lc nd show ?thesis by auto
    next
      case False
      with a e Inr have "c' = c1" by (auto simp add: label_head_def)
      with lc nd show ?thesis by auto
    qed
  qed
qed

lemma labeling_calls:
  assumes a: "labeling R cf head c = (b, c')"
  shows "\<exists>lc. calls c' = calls c @ lc \<and> (\<forall>k\<in>set lc. \<not> is_due_write k)"
proof (cases "promote_label cf")
  case None
  with a show ?thesis by (simp add: labeling_def)
next
  case (Some l)
  show ?thesis
  proof (cases "l = []")
    case True
    with a Some show ?thesis by (simp add: labeling_def)
  next
    case False
    obtain x c1 where lh: "label_head R l head c = (x, c1)" by (cases "label_head R l head c")
    with a Some False have "c' = c1" by (cases x) (auto simp add: labeling_def)
    with label_head_calls[OF lh] show ?thesis by simp
  qed
qed

lemma get_project_id_Body:
  "get_projects R (calls c) = Body ps \<Longrightarrow>
     get_project_id_by_name R name c = (resolve ps name, c\<lparr>calls := calls c @ [ListProjects]\<rparr>)"
  by (simp add: get_project_id_by_name_def list_projects_def req_def)

lemma get_project_id_not_Body:
  "\<forall>ps. get_projects R (calls c) \<noteq> Body ps \<Longrightarrow>
     \<exists>e. get_project_id_by_name R name c = (Inl e, c\<lparr>calls := calls c @ [ListProjects]\<rparr>)"
  by (cases "get_projects R (calls c)")
    (auto simp add: get_project_id_by_name_def list_projects_def req_def)


text \<open>\<open>promote_queue\<close> once the project is resolved.\<close>

lemma promote_queue_resolved:
  assumes P: "get_projects R (calls c) = Body ps"
    and r: "resolve ps (project_name cf) = Inr i" and i: "truthy i"
  shows "promote_queue R cf c =
     (case list_tasks R i (c\<lparr>calls := calls c @ [ListProjects]\<rparr>) of
        (Inl e, c2) \<Rightarrow> (Inl e, c2)
      | (Inr tasks, c2) \<Rightarrow>
          if tasks = []
          then (Inr \<lparr>project = project_name cf, status = empty, promoted_task = None,
                      cleared_due_on = None, labeled = None\<rparr>, c2)
          else (case sort_tasks tasks of
                  [] \<Rightarrow> (Inl IndexError, c2)
                | head # rest \<Rightarrow>
                    (case update_task R (tid head) (Due (cfg_due_string cf) (cfg_language cf)) c2 of
                       (Inl e, c3) \<Rightarrow> (Inl e, c3)
                     | (Inr _, c3) \<Rightarrow>
                         (case (if cfg_clear cf then clear_rest R (cfg_language cf) rest 0 c3
                                else (Inr 0, c3)) of
                            (Inl e, c4) \<Rightarrow> (Inl e, c4)
                          | (Inr cleared, c4) \<Rightarrow>
                              (case labeling R cf head c4 of
                                 (b, c5) \<Rightarrow> (Inr (result_ok cf head cleared b), c5))))))"
  unfolding promote_queue_def Let_def get_project_id_Body[OF P] r result_ok_def
  using i by simp

lemma list_tasks_Body:
  "get_tasks R (calls c) i = Body ts \<Longrightarrow>
     list_tasks R i c = (Inr ts, c\<lparr>calls := calls c @ [ListTasks i]\<rparr>)"
  by (simp add: list_tasks_def req_def)

lemma sort_tasks_Cons: "sort_tasks ts = h # r \<Longrightarrow> ts \<noteq> []"
proof
  assume a: "sort_tasks ts = h # r" and "ts = []"
  then have "sort_tasks ts = []" by (simp add: sort_tasks_def)
  with a show False by simp
qed

lemma promote_queue_forward:
  assumes P: "get_projects R (calls c) = Body ps"
    and r: "resolve ps (project_name cf) = Inr i" and i: "truthy i"
    and T: "get_tasks R (calls c @ [ListProjects]) i = Body ts"
    and s: "sort_tasks ts = head # rest"
    and U: "update_task R (tid head) (Due (cfg_due_string cf) (cfg_language cf))
              (c\<lparr>calls := calls c @ [ListProjects, ListTasks i]\<rparr>) = (Inr (), c3)"
    and C: "(if cfg_clear cf then clear_rest R (cfg_language cf) rest 0 c3 else (Inr 0, c3))
              = (Inr n, c4)"
    and L: "labeling R cf head c4 = (b, c5)"
  shows "promote_queue R cf c = (Inr (result_ok cf head n b), c5)"
proof -
  have ts: "ts \<noteq> []" using s by (rule sort_tasks_Cons)
  have lt: "list_tasks R i (c\<lparr>calls := calls c @ [ListProjects]\<rparr>)
      = (Inr ts, c\<lparr>calls := calls c @ [ListProjects, ListTasks i]\<rparr>)"
    using list_tasks_Body[of R "c\<lparr>calls := calls c @ [ListProjects]\<rparr>" i ts] T by simp
  show ?thesis
    unfolding promote_queue_resolved[OF P r i] lt
    using ts by (simp add: s U C L)
qed

lemma promote_queue_backward:
  assumes run: "promote_queue R cf c = (Inr sm, c')" and st: "status sm = ok"
  shows "\<exists>ps i ts head rest c3 c4 n b.
      get_projects R (calls c) = Body ps \<and> resolve ps (project_name cf) = Inr i \<and> truthy i
    \<and> get_tasks R (calls c @ [ListProjects]) i = Body ts \<and> sort_tasks ts = head # rest
    \<and> update_task R (tid head) (Due (cfg_due_string cf) (cfg_language cf))
              (c\<lparr>calls := calls c @ [ListProjects, ListTasks i]\<rparr>) = (Inr (), c3)
    \<and> (if cfg_clear cf then clear_rest R (cfg_language cf) rest 0 c3 else (Inr 0, c3))
         = (Inr n, c4)
    \<and> labeling R cf head c4 = (b, c') \<and> sm = result_ok cf head n b"
proof -
  have "\<exists>ps. get_projects R (calls c) = Body ps"
  proof (rule ccontr)
    assume "\<not> ?thesis"
    then have "\<forall>ps. get_projects R (calls c) \<noteq> Body ps" by simp
    from get_project_id_not_Body[OF this, of "project_name cf"] run
    show False by (auto simp add: promote_queue_def)
  qed
  then obtain ps where P: "get_projects R (calls c) = Body ps" ..
  note g = get_project_id_Body[OF P]
  obtain i where r: "resolve ps (project_name cf) = Inr i"
  proof (cases "resolve ps (project_name cf)")
    case (Inl e)
    then have "promote_queue R cf c = (Inl e, c\<lparr>calls := calls c @ [ListProjects]\<rparr>)"
      by (simp add: promote_queue_def g)
    with run show ?thesis by simp
  next
    case (Inr i)
    then show ?thesis using that by simp
  qed
  have i: "truthy i"
  proof (rule ccontr)
    assume "\<not> truthy i"
    then have "fst (promote_queue R cf c) = Inr \<lparr>project = project_name cf,
        status = missing_project, promoted_task = None, cleared_due_on = None, labeled = None\<rparr>"
      by (simp add: promote_queue_def g r)
    with run st show False by simp
  qed
  note pq = promote_queue_resolved[OF P r i]
  let ?c1 = "c\<lparr>calls := calls c @ [ListProjects]\<rparr>"
  obtain x c2 where lt: "list_tasks R i ?c1 = (x, c2)" by (cases "list_tasks R i ?c1")
  from list_tasks_client[OF lt]
  have c2: "c2 = c\<lparr>calls := calls c @ [ListProjects, ListTasks i]\<rparr>" by simp
  obtain ts where x: "x = Inr ts" using run by (cases x) (simp_all add: pq lt)
  have ts: "ts \<noteq> []"
  proof
    assume "ts = []"
    then have "status (projr (fst (promote_queue R cf c))) = empty" by (simp add: pq lt x)
    with run st show False by simp
  qed
  have T: "get_tasks R (calls c @ [ListProjects]) i = Body ts"
    using lt x ts by (cases "get_tasks R (calls c @ [ListProjects]) i")
      (auto simp add: list_tasks_def req_def)
  obtain head rest where s: "sort_tasks ts = head # rest"
    using ts by (cases "sort_tasks ts") (simp_all add: sort_tasks_Nil)
  obtain u c3 where U0: "update_task R (tid head) (Due (cfg_due_string cf) (cfg_language cf)) c2
      = (u, c3)"
    by (cases "update_task R (tid head) (Due (cfg_due_string cf) (cfg_language cf)) c2")
  have u: "u = Inr ()" using run ts by (cases u) (simp_all add: pq lt x s U0)
  obtain y c4 where C0: "(if cfg_clear cf then clear_rest R (cfg_language cf) rest 0 c3
      else (Inr 0, c3)) = (y, c4)"
    by (cases "(if cfg_clear cf then clear_rest R (cfg_language cf) rest 0 c3 else (Inr 0, c3))")
  obtain n where y: "y = Inr n" using run ts by (cases y) (simp_all add: pq lt x s U0 u C0)
  obtain b c5 where L: "labeling R cf head c4 = (b, c5)" by (cases "labeling R cf head c4")
  have "promote_queue R cf c = (Inr (result_ok cf head n b), c5)"
    using ts by (simp add: pq lt x s U0 u C0 y L)
  with run have sm: "sm = result_ok cf head n b" and c5: "c' = c5" by auto
  have U: "update_task R (tid head) (Due (cfg_due_string cf) (cfg_language cf))
              (c\<lparr>calls := calls c @ [ListProjects, ListTasks i]\<rparr>) = (Inr (), c3)"
    using U0 u c2 by simp
  have C: "(if cfg_clear cf then clear_rest R (cfg_language cf) rest 0 c3 else (Inr 0, c3))
         = (Inr n, c4)"
    using C0 y by simp
  have L': "labeling R cf head c4 = (b, c')" using L c5 by simp
  show ?thesis
    apply (intro exI conjI)
            apply (rule P)
           apply (rule r)
          apply (rule i)
         apply (rule T)
        apply (rule s)
       apply (rule U)
      apply (rule C)
     apply (rule L')
    apply (rule sm)
    done
qed

section \<open>Resolution by exact name\<close>

lemma exact_match_find:
  "exact_match ps name =
     map_option pid (find (\<lambda>p. lower (strip (pname p)) = lower (strip name)) ps)"
  by (induction ps) simp_all

lemma store_get_projects:
  "get_projects (store_remote st) h = Body (st_projects (store_after st h))"
  by (simp add: store_remote_def)

lemma store_after_Nil: "store_after st [] = st"
  by (simp add: store_after_def)

text \<open>
  C4. After a successful project listing, a name whose trimmed, lower-cased form
  equals that of some project's name resolves at once to the identifier of the first
  such project in the listing, whether or not the name contains a slash; only when no
  project matches is the name read as a path, and then only if it contains a slash,
  otherwise the answer is "not found".
\<close>

theorem exact_match_first:
  assumes P: "get_projects R (calls c) = Body ps"
  shows "(\<forall>p. find (\<lambda>p. lower (strip (pname p)) = lower (strip name)) ps = Some p
            \<longrightarrow> get_project_id_by_name R name c
                  = (Inr (pid p), c\<lparr>calls := calls c @ [ListProjects]\<rparr>))
       \<and> ((\<exists>p\<in>set ps. lower (strip (pname p)) = lower (strip name))
            \<longrightarrow> (\<exists>p\<in>set ps. lower (strip (pname p)) = lower (strip name)
                   \<and> fst (get_project_id_by_name R name c) = Inr (pid p)))
       \<and> ((\<forall>p\<in>set ps. lower (strip (pname p)) \<noteq> lower (strip name))
            \<longrightarrow> fst (get_project_id_by_name R name c)
                  = (if CHR ''/'' \<in> set name then resolve_hierarchical_project ps name
                     else Inr PNone))"
proof -
  let ?m = "\<lambda>p. lower (strip (pname p)) = lower (strip name)"
  note g = get_project_id_Body[OF P, of name]
  have a: "get_project_id_by_name R name c
      = (Inr (pid p), c\<lparr>calls := calls c @ [ListProjects]\<rparr>)" if "find ?m ps = Some p" for p
    using that by (simp add: g resolve_def exact_match_find)
  have b: "\<exists>p\<in>set ps. ?m p \<and> fst (get_project_id_by_name R name c) = Inr (pid p)"
    if "\<exists>p\<in>set ps. ?m p"
  proof -
    from that obtain p where f: "find ?m ps = Some p"
      by (cases "find ?m ps") (auto simp add: find_None_iff)
    then have "p \<in> set ps" "?m p" by (auto simp add: find_Some_iff)
    with a[OF f] show ?thesis by auto
  qed
  have c: "fst (get_project_id_by_name R name c)
      = (if CHR ''/'' \<in> set name then resolve_hierarchical_project ps name else Inr PNone)"
    if "\<forall>p\<in>set ps. \<not> ?m p"
  proof -
    from that have "find ?m ps = None" by (simp add: find_None_iff)
    then show ?thesis by (simp add: g resolve_def exact_match_find)
  qed
  from a b c show ?thesis by blast
qed

theorem exact_match_first_witness:
  "get_project_id_by_name (store_remote ex_store) ''Chores/Rotating Chore Queue'' fresh_client
     = (Inr (PStr ''p2''), fresh_client\<lparr>calls := calls fresh_client @ [ListProjects]\<rparr>)
   \<and> resolve_hierarchical_project ex_projects ''Chores/Rotating Chore Queue'' = Inr (PStr ''p1'')"
proof -
  have P: "get_projects (store_remote ex_store) (calls fresh_client) = Body ex_projects"
    by (simp add: store_get_projects fresh_client_def store_after_Nil ex_store_def)
  have f: "find (\<lambda>p. lower (strip (pname p)) = lower (strip ''Chores/Rotating Chore Queue''))
      ex_projects = Some \<lparr>pid = PStr ''p2'', pname = ''chores/rotating chore queue'', parent_id = PNone\<rparr>"
    by code_simp
  have h: "resolve_hierarchical_project ex_projects ''Chores/Rotating Chore Queue'' = Inr (PStr ''p1'')"
    by code_simp
  from exact_match_first[OF P, of "''Chores/Rotating Chore Queue''"] f h
  show ?thesis by simp
qed

section \<open>Runs that promote nothing\<close>

lemma list_tasks_empty:
  "get_tasks R (calls c) i = Body [] \<or> get_tasks R (calls c) i = NoBody \<Longrightarrow>
     list_tasks R i c = (Inr [], c\<lparr>calls := calls c @ [ListTasks i]\<rparr>)"
  by (auto simp add: list_tasks_def req_def)

lemma promote_queue_falsy:
  assumes P: "get_projects R (calls c) = Body ps"
    and r: "resolve ps (project_name cf) = Inr i" and i: "\<not> truthy i"
  shows "promote_queue R cf c =
     (Inr \<lparr>project = project_name cf, status = missing_project, promoted_task = None,
            cleared_due_on = None, labeled = None\<rparr>, c\<lparr>calls := calls c @ [ListProjects]\<rparr>)"
  using i by (simp add: promote_queue_def get_project_id_Body[OF P] r)

text \<open>
  C7. After a successful project listing: if the configured name resolves to nothing,
  the run returns the status \<open>missing_project\<close> (the specification's
  \<open>project_not_found\<close>) and the listing of projects is the only request it has sent;
  if the name resolves to an identifier and the listing of that project's tasks is
  empty, the run returns the status \<open>empty\<close> and has sent the two listings only.
  In both cases no task is updated and no label is created.
\<close>

theorem unresolved_or_empty_writes_nothing:
  assumes P: "get_projects R (calls c) = Body ps"
  shows "(resolve ps (project_name cf) = Inr PNone \<longrightarrow>
            promote_queue R cf c =
              (Inr \<lparr>project = project_name cf, status = missing_project, promoted_task = None,
                     cleared_due_on = None, labeled = None\<rparr>,
               c\<lparr>calls := calls c @ [ListProjects]\<rparr>))
       \<and> (\<forall>i. resolve ps (project_name cf) = Inr i \<and> truthy i
              \<and> (get_tasks R (calls c @ [ListProjects]) i = Body []
                  \<or> get_tasks R (calls c @ [ListProjects]) i = NoBody) \<longrightarrow>
            promote_queue R cf c =
              (Inr \<lparr>project = project_name cf, status = empty, promoted_task = None,
                     cleared_due_on = None, labeled = None\<rparr>,
               c\<lparr>calls := calls c @ [ListProjects, ListTasks i]\<rparr>))"
proof (intro conjI impI allI)
  assume "resolve ps (project_name cf) = Inr PNone"
  from promote_queue_falsy[OF P this] show "promote_queue R cf c =
              (Inr \<lparr>project = project_name cf, status = missing_project, promoted_task = None,
                     cleared_due_on = None, labeled = None\<rparr>,
               c\<lparr>calls := calls c @ [ListProjects]\<rparr>)" by simp
next
  fix i
  assume a: "resolve ps (project_name cf) = Inr i \<and> truthy i
              \<and> (get_tasks R (calls c @ [ListProjects]) i = Body []
                  \<or> get_tasks R (calls c @ [ListProjects]) i = NoBody)"
  then have r: "resolve ps (project_name cf) = Inr i" and i: "truthy i" by simp_all
  have lt: "list_tasks R i (c\<lparr>calls := calls c @ [ListProjects]\<rparr>)
      = (Inr [], c\<lparr>calls := calls c @ [ListProjects, ListTasks i]\<rparr>)"
    using list_tasks_empty[of R "c\<lparr>calls := calls c @ [ListProjects]\<rparr>" i] a by simp
  show "promote_queue R cf c =
              (Inr \<lparr>project = project_name cf, status = empty, promoted_task = None,
                     cleared_due_on = None, labeled = None\<rparr>,
               c\<lparr>calls := calls c @ [ListProjects, ListTasks i]\<rparr>)"
    by (simp add: promote_queue_resolved[OF P r i] lt)
qed

theorem unresolved_or_empty_writes_nothing_witness:
  "promote_queue (store_remote ex_store) (ex_cfg\<lparr>project_name := ''Chores/Nonexistent''\<rparr>)
     fresh_client =
     (Inr \<lparr>project = ''Chores/Nonexistent'', status = missing_project, promoted_task = None,
            cleared_due_on = None, labeled = None\<rparr>,
      \<lparr>calls = [ListProjects], label_cache = None\<rparr>)
   \<and> promote_queue (store_remote ex_store) (ex_cfg\<lparr>project_name := ''Garden''\<rparr>) fresh_client =
     (Inr \<lparr>project = ''Garden'', status = empty, promoted_task = None,
            cleared_due_on = None, labeled = None\<rparr>,
      \<lparr>calls = [ListProjects, ListTasks (PStr ''p3'')], label_cache = None\<rparr>)"
proof -
  have P: "get_projects (store_remote ex_store) (calls fresh_client) = Body ex_projects"
    by (simp add: store_get_projects fresh_client_def store_after_Nil ex_store_def)
  have r1: "resolve ex_projects (project_name (ex_cfg\<lparr>project_name := ''Chores/Nonexistent''\<rparr>))
      = Inr PNone" by code_simp
  have r2: "resolve ex_projects (project_name (ex_cfg\<lparr>project_name := ''Garden''\<rparr>))
      = Inr (PStr ''p3'')" by code_simp
  have t: "get_tasks (store_remote ex_store) (calls fresh_client @ [ListProjects]) (PStr ''p3'')
      = Body []" by code_simp
  from unresolved_or_empty_writes_nothing[OF P,
      of "ex_cfg\<lparr>project_name := ''Chores/Nonexistent''\<rparr>"] r1
  have a: "promote_queue (store_remote ex_store) (ex_cfg\<lparr>project_name := ''Chores/Nonexistent''\<rparr>)
     fresh_client =
     (Inr \<lparr>project = ''Chores/Nonexistent'', status = missing_project, promoted_task = None,
            cleared_due_on = None, labeled = None\<rparr>,
      \<lparr>calls = [ListProjects], label_cache = None\<rparr>)"
    by (simp add: fresh_client_def)
  from unresolved_or_empty_writes_nothing[OF P, of "ex_cfg\<lparr>project_name := ''Garden''\<rparr>"] r2 t
  have b: "promote_queue (store_remote ex_store) (ex_cfg\<lparr>project_name := ''Garden''\<rparr>)
     fresh_client =
     (Inr \<lparr>project = ''Garden'', status = empty, promoted_task = None,
            cleared_due_on = None, labeled = None\<rparr>,
      \<lparr>calls = [ListProjects, ListTasks (PStr ''p3'')], label_cache = None\<rparr>)"
    by (simp add: fresh_client_def)
  from a b show ?thesis by simp
qed

text \<open>
  C10. An identifier that Python takes for false is \<open>None\<close>, \<open>0\<close> or the empty
  string. When the resolver returns one, the run returns the status
  \<open>missing_project\<close> after the listing of projects alone, and the summary and the
  requests sent are those of a run whose queue name resolves to nothing.
\<close>

theorem falsy_id_reported_missing:
  assumes P: "get_projects R (calls c) = Body ps"
    and r: "resolve ps (project_name cf) = Inr i" and i: "\<not> truthy i"
    and P': "get_projects R' (calls c) = Body ps'"
    and r': "resolve ps' (project_name cf) = Inr PNone"
  shows "(i = PNone \<or> i = PInt 0 \<or> i = PStr [])
     \<and> promote_queue R cf c =
         (Inr \<lparr>project = project_name cf, status = missing_project, promoted_task = None,
                cleared_due_on = None, labeled = None\<rparr>, c\<lparr>calls := calls c @ [ListProjects]\<rparr>)
     \<and> promote_queue R cf c = promote_queue R' cf c"
proof -
  have "i = PNone \<or> i = PInt 0 \<or> i = PStr []" using i by (cases i) auto
  moreover note promote_queue_falsy[OF P r i]
  moreover have "promote_queue R' cf c =
         (Inr \<lparr>project = project_name cf, status = missing_project, promoted_task = None,
                cleared_due_on = None, labeled = None\<rparr>, c\<lparr>calls := calls c @ [ListProjects]\<rparr>)"
    using promote_queue_falsy[OF P' r'] by simp
  ultimately show ?thesis by simp
qed

theorem falsy_id_reported_missing_witness:
  "exact_match ex_zero_projects ''Attic'' = Some (PInt 0)
   \<and> promote_queue (store_remote ex_zero_store) (ex_cfg\<lparr>project_name := ''Attic''\<rparr>) fresh_client =
       (Inr \<lparr>project = ''Attic'', status = missing_project, promoted_task = None,
              cleared_due_on = None, labeled = None\<rparr>,
        \<lparr>calls = [ListProjects], label_cache = None\<rparr>)
   \<and> promote_queue (store_remote ex_store) (ex_cfg\<lparr>project_name := ''Attic''\<rparr>) fresh_client =
       (Inr \<lparr>project = ''Attic'', status = missing_project, promoted_task = None,
              cleared_due_on = None, labeled = None\<rparr>,
        \<lparr>calls = [ListProjects], label_cache = None\<rparr>)"
proof -
  have P: "get_projects (store_remote ex_zero_store) (calls fresh_client) = Body ex_zero_projects"
    by (simp add: store_get_projects fresh_client_def store_after_Nil ex_zero_store_def)
  have P': "get_projects (store_remote ex_store) (calls fresh_client) = Body ex_projects"
    by (simp add: store_get_projects fresh_client_def store_after_Nil ex_store_def)
  have e: "exact_match ex_zero_projects ''Attic'' = Some (PInt 0)" by code_simp
  have r: "resolve ex_zero_projects (project_name (ex_cfg\<lparr>project_name := ''Attic''\<rparr>))
      = Inr (PInt 0)" by code_simp
  have i: "\<not> truthy (PInt 0)" by simp
  have r': "resolve ex_projects (project_name (ex_cfg\<lparr>project_name := ''Attic''\<rparr>)) = Inr PNone"
    by code_simp
  note th = falsy_id_reported_missing[OF P r i P' r']
  note a = th[THEN conjunct2, THEN conjunct1]
  note b = th[THEN conjunct2, THEN conjunct2]
  note c = trans[OF b[symmetric] a]
  from e a c show ?thesis
    by (simp add: fresh_client_def)
qed

section \<open>The demoting step\<close>

lemma before_labeling_reached:
  assumes U: "update_task R (tid head) (Due (cfg_due_string cf) (cfg_language cf))
              (c\<lparr>calls := calls c @ [ListProjects, ListTasks i]\<rparr>) = (Inr (), c3)"
    and C: "(if cfg_clear cf then clear_rest R (cfg_language cf) rest 0 c3 else (Inr 0, c3))
              = (Inr n, c4)"
  shows "c4 = before_labeling cf c i head rest
     \<and> n = (if cfg_clear cf then length (filter (\<lambda>t. due t \<noteq> None) rest) else 0)"
proof -
  from update_task_client[OF U]
  have c3: "c3 = c\<lparr>calls := calls c @ [ListProjects, ListTasks i,
      UpdateTask (tid head) (Due (cfg_due_string cf) (cfg_language cf))]\<rparr>" by simp
  show ?thesis
  proof (cases "cfg_clear cf")
    case True
    with C have "clear_rest R (cfg_language cf) rest 0 c3 = (Inr n, c4)" by simp
    from clear_rest_Inr[OF this] True show ?thesis by (simp add: c3 before_labeling_def)
  next
    case False
    with C show ?thesis by (simp add: c3 before_labeling_def)
  qed
qed


lemma filter_label_clear_calls: "filter is_label_write (clear_calls lang rest) = []"
  by (simp add: clear_calls_def filter_map o_def)




lemma ex_P: "get_projects (store_remote ex_store) (calls fresh_client) = Body ex_projects"
  by (simp add: store_get_projects fresh_client_def store_after_Nil ex_store_def)

lemma ex_r: "resolve ex_projects (project_name ex_cfg) = Inr (PStr ''p1'')"
  by code_simp

lemma ex_T: "get_tasks (store_remote ex_store) (calls fresh_client @ [ListProjects]) (PStr ''p1'')
    = Body [ex_dishes, ex_trash, ex_wipe]"
  by code_simp

lemma ex_s: "sort_tasks [ex_dishes, ex_trash, ex_wipe] = ex_trash # [ex_dishes, ex_wipe]"
  by code_simp


section \<open>The labeling step\<close>

lemma labeling_Inl:
  "promote_label cf = Some l \<Longrightarrow> l \<noteq> [] \<Longrightarrow> label_head R l head c = (Inl e, c') \<Longrightarrow>
     labeling R cf head c = (False, c')"
  by (simp add: labeling_def)

lemma labeling_Inr:
  "promote_label cf = Some l \<Longrightarrow> l \<noteq> [] \<Longrightarrow> label_head R l head c = (Inr u, c') \<Longrightarrow>
     labeling R cf head c = (True, c')"
  by (simp add: labeling_def)

text \<open>
  C8. Let the run have reached the labeling step: the listings answered, the head
  was promoted and the rest cleared, with \<open>n\<close> tasks counted. If the step then fails,
  either while the label is looked up or created (\<open>ensure_label\<close> raises: a failed
  listing of labels, a failed or empty answer to the creation, a blank label name) or
  while the label set is written to the head, the run still returns a summary: status
  \<open>ok\<close>, the title of the head, the count \<open>n\<close> and \<open>labeled\<close> false. The failure is
  not the result of the run.
\<close>

theorem labeling_failure_is_caught:
  assumes P: "get_projects R (calls c) = Body ps"
    and r: "resolve ps (project_name cf) = Inr i" and i: "truthy i"
    and T: "get_tasks R (calls c @ [ListProjects]) i = Body ts"
    and s: "sort_tasks ts = head # rest"
    and U: "update_task R (tid head) (Due (cfg_due_string cf) (cfg_language cf))
              (c\<lparr>calls := calls c @ [ListProjects, ListTasks i]\<rparr>) = (Inr (), c3)"
    and C: "(if cfg_clear cf then clear_rest R (cfg_language cf) rest 0 c3 else (Inr 0, c3))
              = (Inr n, c4)"
    and pl: "promote_label cf = Some l" and ne: "l \<noteq> []"
    and F: "ensure_label R l c4 = (Inl e, c5)
            \<or> (\<exists>lab c4'. ensure_label R l c4 = (Inr lab, c4')
                 \<and> lab \<notin> set (labels head) \<and> PStr l \<notin> set (labels head)
                 \<and> update_task R (tid head) (Labels (labels head @ [lab])) c4' = (Inl e, c5))"
  shows "promote_queue R cf c =
           (Inr \<lparr>project = project_name cf, status = ok, promoted_task = Some (title head),
                  cleared_due_on = Some n, labeled = Some False\<rparr>, c5)
       \<and> n = (if cfg_clear cf then length (filter (\<lambda>t. due t \<noteq> None) rest) else 0)"
proof -
  have "label_head R l head c4 = (Inl e, c5)"
    using F by (auto simp add: label_head_def)
  from labeling_Inl[OF pl ne this] have L: "labeling R cf head c4 = (False, c5)" .
  from promote_queue_forward[OF P r i T s U C L] before_labeling_reached[OF U C]
  show ?thesis by (simp add: result_ok_def)
qed

theorem labeling_failure_is_caught_witness:
  "promote_queue flaky_remote ex_cfg fresh_client =
     (Inr \<lparr>project = ''Chores / Rotating Chore Queue'', status = ok,
            promoted_task = Some ''02 trash'', cleared_due_on = Some 1, labeled = Some False\<rparr>,
      \<lparr>calls = [ListProjects, ListTasks (PStr ''p1''),
                UpdateTask (PStr ''b'') (Due ''today'' ''en''),
                UpdateTask (PStr ''c'') (Due ''no due date'' ''en''), ListLabels],
        label_cache = None\<rparr>)"
proof -
  let ?c3 = "\<lparr>calls = [ListProjects, ListTasks (PStr ''p1''),
      UpdateTask (PStr ''b'') (Due ''today'' ''en'')], label_cache = None\<rparr>"
  let ?c4 = "\<lparr>calls = [ListProjects, ListTasks (PStr ''p1''),
      UpdateTask (PStr ''b'') (Due ''today'' ''en''),
      UpdateTask (PStr ''c'') (Due ''no due date'' ''en'')], label_cache = None\<rparr>"
  let ?c5 = "\<lparr>calls = [ListProjects, ListTasks (PStr ''p1''),
      UpdateTask (PStr ''b'') (Due ''today'' ''en''),
      UpdateTask (PStr ''c'') (Due ''no due date'' ''en''), ListLabels], label_cache = None\<rparr>"
  have P: "get_projects flaky_remote (calls fresh_client) = Body ex_projects" by code_simp
  have i: "truthy (PStr ''p1'')" by simp
  have T: "get_tasks flaky_remote (calls fresh_client @ [ListProjects]) (PStr ''p1'')
      = Body [ex_dishes, ex_trash, ex_wipe]" by code_simp
  have U: "update_task flaky_remote (tid ex_trash)
      (Due (cfg_due_string ex_cfg) (cfg_language ex_cfg))
      (fresh_client\<lparr>calls := calls fresh_client @ [ListProjects, ListTasks (PStr ''p1'')]\<rparr>)
      = (Inr (), ?c3)" by code_simp
  have C: "(if cfg_clear ex_cfg
            then clear_rest flaky_remote (cfg_language ex_cfg) [ex_dishes, ex_wipe] 0 ?c3
            else (Inr 0, ?c3)) = (Inr 1, ?c4)" by code_simp
  have pl: "promote_label ex_cfg = Some ''@next''" by (simp add: ex_cfg_def)
  have ne: "''@next'' \<noteq> []" by simp
  have "ensure_label flaky_remote ''@next'' ?c4 = (Inl (RuntimeError 503 ''unavailable''), ?c5)"
    by code_simp
  then have F: "ensure_label flaky_remote ''@next'' ?c4
        = (Inl (RuntimeError 503 ''unavailable''), ?c5)
      \<or> (\<exists>lab c4'. ensure_label flaky_remote ''@next'' ?c4 = (Inr lab, c4')
           \<and> lab \<notin> set (labels ex_trash) \<and> PStr ''@next'' \<notin> set (labels ex_trash)
           \<and> update_task flaky_remote (tid ex_trash) (Labels (labels ex_trash @ [lab])) c4'
               = (Inl (RuntimeError 503 ''unavailable''), ?c5))" ..
  have n: "project_name ex_cfg = ''Chores / Rotating Chore Queue''" by (simp add: ex_cfg_def)
  have t: "title ex_trash = ''02 trash''" by code_simp
  from labeling_failure_is_caught[OF P ex_r i T ex_s U C pl ne F]
  show ?thesis by (simp add: n t)
qed

text \<open>
  C9, as stated, fails: with the configured label text already among the labels of
  the head, a service that refuses to list the labels makes the lookup of the label
  raise inside the labeling step, and the summary reports \<open>labeled\<close> false. No label
  set is written.
\<close>

theorem present_label_lookup_refused:
  "sort_tasks [ex_dishes, ex_tagged, ex_wipe] = [ex_tagged, ex_dishes, ex_wipe]
   \<and> PStr ''@next'' \<in> set (labels ex_tagged)
   \<and> promote_label ex_cfg = Some ''@next''
   \<and> promote_queue flaky_tagged_remote ex_cfg fresh_client =
       (Inr \<lparr>project = ''Chores / Rotating Chore Queue'', status = ok,
              promoted_task = Some ''02 trash'', cleared_due_on = Some 1,
              labeled = Some False\<rparr>,
        \<lparr>calls = [ListProjects, ListTasks (PStr ''p1''),
                  UpdateTask (PStr ''b'') (Due ''today'' ''en''),
                  UpdateTask (PStr ''c'') (Due ''no due date'' ''en''), ListLabels],
          label_cache = None\<rparr>)"
  by code_simp

text \<open>
  C9, amended. Take a run that returns the status \<open>ok\<close>, with \<open>head\<close> the task it
  promoted, and let \<open>x\<close> be the outcome of looking the label up, or creating it, when
  the labeling step begins. If the head carries the configured label text among its
  labels, or the lookup gives an identifier that the head carries, then the run sends
  no update of a label set at all, and the summary reports \<open>labeled\<close> true when the
  lookup succeeded and false when it raised.
\<close>

theorem present_label_is_not_rewritten:
  assumes run: "promote_queue R cf c = (Inr sm, c')" and st: "status sm = ok"
    and P: "get_projects R (calls c) = Body ps"
    and r: "resolve ps (project_name cf) = Inr i"
    and T: "get_tasks R (calls c @ [ListProjects]) i = Body ts"
    and s: "sort_tasks ts = head # rest"
    and pl: "promote_label cf = Some l" and ne: "l \<noteq> []"
    and E: "ensure_label R l (before_labeling cf c i head rest) = (x, c5)"
    and has: "PStr l \<in> set (labels head) \<or> (\<exists>lab. x = Inr lab \<and> lab \<in> set (labels head))"
  shows "filter is_label_write (drop (length (calls c)) (calls c')) = []
       \<and> (case x of Inr lab \<Rightarrow> labeled sm = Some True | Inl e \<Rightarrow> labeled sm = Some False)
       \<and> c' = c5"
proof -
  from promote_queue_backward[OF run st] obtain ps' i' ts' head' rest' c3 c4 n b where
    P': "get_projects R (calls c) = Body ps'" and r': "resolve ps' (project_name cf) = Inr i'"
    and T': "get_tasks R (calls c @ [ListProjects]) i' = Body ts'"
    and s': "sort_tasks ts' = head' # rest'"
    and U: "update_task R (tid head') (Due (cfg_due_string cf) (cfg_language cf))
              (c\<lparr>calls := calls c @ [ListProjects, ListTasks i']\<rparr>) = (Inr (), c3)"
    and C: "(if cfg_clear cf then clear_rest R (cfg_language cf) rest' 0 c3 else (Inr 0, c3))
              = (Inr n, c4)"
    and L: "labeling R cf head' c4 = (b, c')" and sm: "sm = result_ok cf head' n b"
    by blast
  from P P' have "ps' = ps" by simp
  with r r' have ii: "i' = i" by simp
  with T T' have "ts' = ts" by simp
  with s s' have hr: "head' = head" "rest' = rest" by simp_all
  from before_labeling_reached[OF U C]
  have c4: "c4 = before_labeling cf c i head rest" by (simp add: hr ii)
  from E have E4: "ensure_label R l c4 = (x, c5)" by (simp add: c4)
  have L': "labeling R cf head c4
      = (case x of Inr lab \<Rightarrow> True | Inl e \<Rightarrow> False, c5)"
  proof (cases x)
    case (Inl e)
    with E4 have "label_head R l head c4 = (Inl e, c5)" by (simp add: label_head_def)
    from labeling_Inl[OF pl ne this] Inl show ?thesis by simp
  next
    case (Inr lab)
    with E4 has have "label_head R l head c4 = (Inr (), c5)"
      by (auto simp add: label_head_def)
    from labeling_Inr[OF pl ne this] Inr show ?thesis by simp
  qed
  from L L' have b: "b = (case x of Inr lab \<Rightarrow> True | Inl e \<Rightarrow> False)" and c': "c' = c5"
    by (simp_all add: hr)
  from ensure_label_calls[OF E4] obtain lc where lc: "calls c5 = calls c4 @ lc"
    "\<forall>k\<in>set lc. is_label_admin k" by blast
  have "\<not> is_label_write k" if "k \<in> set lc" for k
  proof -
    from that lc have "is_label_admin k" by simp
    then show ?thesis by (cases k) auto
  qed
  then have f: "filter is_label_write lc = []" by (simp add: filter_empty_conv)
  have w: "filter is_label_write (drop (length (calls c)) (calls c')) = []"
    by (simp add: c' lc(1) c4 before_labeling_def f filter_label_clear_calls)
  have "case x of Inr lab \<Rightarrow> labeled sm = Some True | Inl e \<Rightarrow> labeled sm = Some False"
    by (cases x) (simp_all add: sm b result_ok_def)
  with w c' show ?thesis by simp
qed

lemma ex_labeled_run:
  "promote_queue (store_remote ex_labeled_store) ex_cfg fresh_client =
     (Inr \<lparr>project = ''Chores / Rotating Chore Queue'', status = ok,
            promoted_task = Some ''02 trash'', cleared_due_on = Some 1, labeled = Some True\<rparr>,
      \<lparr>calls = [ListProjects, ListTasks (PStr ''p1''),
                UpdateTask (PStr ''b'') (Due ''today'' ''en''),
                UpdateTask (PStr ''c'') (Due ''no due date'' ''en''), ListLabels],
        label_cache = Some [\<lparr>lid = PInt 7, lname = ''@Next''\<rparr>]\<rparr>)"
  by code_simp

theorem present_label_is_not_rewritten_witness:
  "filter is_label_write
     (calls (snd (promote_queue (store_remote ex_labeled_store) ex_cfg fresh_client))) = []
   \<and> labeled (projr (fst (promote_queue (store_remote ex_labeled_store) ex_cfg fresh_client)))
     = Some True
   \<and> PInt 7 \<in> set (labels (ex_trash\<lparr>labels := [PInt 7]\<rparr>))"
proof -
  let ?R = "store_remote ex_labeled_store"
  let ?head = "ex_trash\<lparr>labels := [PInt 7]\<rparr>"
  let ?c5 = "\<lparr>calls = [ListProjects, ListTasks (PStr ''p1''),
      UpdateTask (PStr ''b'') (Due ''today'' ''en''),
      UpdateTask (PStr ''c'') (Due ''no due date'' ''en''), ListLabels],
      label_cache = Some [\<lparr>lid = PInt 7, lname = ''@Next''\<rparr>]\<rparr>"
  have st: "status \<lparr>project = ''Chores / Rotating Chore Queue'', status = ok,
            promoted_task = Some ''02 trash'', cleared_due_on = Some 1, labeled = Some True\<rparr> = ok"
    by simp
  have P: "get_projects ?R (calls fresh_client) = Body ex_projects" by code_simp
  have T: "get_tasks ?R (calls fresh_client @ [ListProjects]) (PStr ''p1'')
      = Body [ex_dishes, ?head, ex_wipe]" by code_simp
  have s: "sort_tasks [ex_dishes, ?head, ex_wipe] = ?head # [ex_dishes, ex_wipe]" by code_simp
  have pl: "promote_label ex_cfg = Some ''@next''" by (simp add: ex_cfg_def)
  have ne: "''@next'' \<noteq> []" by simp
  have E: "ensure_label ?R ''@next''
      (before_labeling ex_cfg fresh_client (PStr ''p1'') ?head [ex_dishes, ex_wipe])
      = (Inr (PInt 7), ?c5)" by code_simp
  have m: "PInt 7 \<in> set (labels ?head)" by simp
  then have has: "PStr ''@next'' \<in> set (labels ?head)
      \<or> (\<exists>lab. Inr (PInt 7) = Inr lab \<and> lab \<in> set (labels ?head))" by simp
  have n: "calls fresh_client = []" by (simp add: fresh_client_def)
  from present_label_is_not_rewritten[OF ex_labeled_run st P ex_r T s pl ne E has] m
  show ?thesis
    by (simp add: ex_labeled_run n)
qed

section \<open>Hierarchical resolution\<close>

lemma split_on_nonempty: "split_on d s \<noteq> []"
  by (induction s) (auto split: list.splits)

lemma build_maps_children:
  "(case snd (build_maps ps (pm, cm)) i of None \<Rightarrow> [] | Some cs \<Rightarrow> cs) =
     (case cm i of None \<Rightarrow> [] | Some cs \<Rightarrow> cs)
     @ map pid (filter (\<lambda>p. truthy (parent_id p) \<and> parent_id p = i) ps)"
proof (induction ps arbitrary: pm cm)
  case Nil
  show ?case by simp
next
  case (Cons p ps)
  show ?case
  proof (cases "truthy (parent_id p)")
    case True
    then show ?thesis by (simp add: Cons.IH)
  next
    case False
    then show ?thesis by (simp add: Cons.IH)
  qed
qed

lemma build_maps_projects_other:
  "i \<notin> pid ` set ps \<Longrightarrow> fst (build_maps ps (pm, cm)) i = pm i"
  by (induction ps arbitrary: pm cm) auto

lemma build_maps_projects:
  "distinct (map pid ps) \<Longrightarrow> p \<in> set ps \<Longrightarrow> fst (build_maps ps (pm, cm)) (pid p) = Some p"
proof (induction ps arbitrary: pm cm)
  case Nil
  then show ?case by simp
next
  case (Cons a ps)
  show ?case
  proof (cases "p = a")
    case True
    from Cons.prems have "pid a \<notin> pid ` set ps" by simp
    then show ?thesis using True by (simp add: build_maps_projects_other)
  next
    case False
    with Cons.prems have "distinct (map pid ps)" "p \<in> set ps" by simp_all
    then show ?thesis by (simp add: Cons.IH)
  qed
qed

lemma root_candidates_filter:
  "root_candidates ps seg =
     map pid (filter (\<lambda>p. \<not> truthy (parent_id p) \<and> name_matches p seg) ps)"
  by (induction ps) (simp_all add: name_matches_def)

lemma find_child_find:
  "\<forall>p\<in>set cs. pm (pid p) = Some p \<Longrightarrow>
     find_child pm (map pid cs) part =
       Inr (case find (\<lambda>p. name_matches p part) cs of None \<Rightarrow> PNone | Some ch \<Rightarrow> pid ch)"
  by (induction cs) (simp_all add: name_matches_def)

lemma traverse_by_truth:
  assumes d: "distinct (map pid ps)"
    and nn: "\<forall>p\<in>set ps. pid p \<noteq> PNone"
    and b: "build_maps ps (Map.empty, Map.empty) = (pm, cm)"
  shows "traverse pm cm cur parts = Inr (walk_by_truth ps cur parts)"
proof (induction parts arbitrary: cur)
  case Nil
  show ?case by simp
next
  case (Cons part parts)
  have pm: "\<forall>p\<in>set (children_by_truth ps cur). pm (pid p) = Some p"
  proof
    fix p assume "p \<in> set (children_by_truth ps cur)"
    then have "p \<in> set ps" by (simp add: children_by_truth_def)
    from build_maps_projects[OF d this, of Map.empty Map.empty] b show "pm (pid p) = Some p"
      by simp
  qed
  have kids: "(case cm cur of None \<Rightarrow> [] | Some cs \<Rightarrow> cs) = map pid (children_by_truth ps cur)"
    using build_maps_children[of ps Map.empty Map.empty cur] b
    by (simp add: children_by_truth_def)
  show ?case
  proof (cases "find (\<lambda>p. name_matches p part) (children_by_truth ps cur)")
    case None
    then show ?thesis by (simp add: kids find_child_find[OF pm])
  next
    case (Some ch)
    then have "ch \<in> set (children_by_truth ps cur)" by (auto simp add: find_Some_iff)
    then have "ch \<in> set ps" by (simp add: children_by_truth_def)
    with nn have "pid ch \<noteq> PNone" by simp
    with Some show ?thesis by (simp add: kids find_child_find[OF pm] Cons.IH)
  qed
qed

lemma try_roots_by_truth:
  assumes d: "distinct (map pid ps)"
    and nn: "\<forall>p\<in>set ps. pid p \<noteq> PNone"
    and b: "build_maps ps (Map.empty, Map.empty) = (pm, cm)"
  shows "try_roots pm cm (map pid rs) parts = Inr (first_root_by_truth ps rs parts)"
proof (induction rs)
  case Nil
  show ?case by simp
next
  case (Cons r rs)
  show ?case
    by (cases "walk_by_truth ps (pid r) parts") (simp_all add: traverse_by_truth[OF d nn b] Cons.IH)
qed

text \<open>
  C3, as stated, fails in two ways. The program takes a parent reference that Python
  holds for false as no parent: under a root with the identifier 0 the child \<open>b\<close> is
  never found by the path \<open>A/b\<close>, while the specification's reading reaches it. And a
  child that matches but has the identifier \<open>None\<close> ends the walk of its root as if
  nothing had matched: the program then answers from the second root, while in the
  specification's reading the walk of the first root has succeeded.
\<close>

theorem falsy_parent_or_null_child:
  "resolve ex_zero_forest ''A/b'' = Inr PNone
   \<and> spec_resolve_path ex_zero_forest ''A/b'' = PInt 1
   \<and> resolve ex_null_forest ''A/B'' = Inr (PStr ''x'')
   \<and> spec_resolve_path ex_null_forest ''A/B'' = PNone"
  by code_simp

text \<open>
  C3, amended. Take a listing in which the identifiers are pairwise distinct and none
  is null, and a path that contains a slash and equals no project's full name. Then
  the resolver returns, without raising, the following: the path is split into trimmed
  segments; the root candidates are the projects whose parent reference is absent or
  false for Python (null, 0 or the empty string) and whose name matches the first
  segment; from each candidate, in listing order, every further segment is matched
  against the projects whose parent reference is a true value equal to the identifier
  of the current node, the first that matches being taken and a segment without a
  match ending that candidate; the answer is the identifier reached from the first
  candidate that gets through all segments, and "not found" when none does.
\<close>

theorem hierarchical_resolution_by_truth:
  assumes slash: "CHR ''/'' \<in> set path"
    and noexact: "\<forall>p\<in>set ps. lower (strip (pname p)) \<noteq> lower (strip path)"
    and d: "distinct (map pid ps)"
    and nn: "\<forall>p\<in>set ps. pid p \<noteq> PNone"
  shows "resolve ps path = Inr (resolve_path_by_truth ps path)"
proof -
  have e: "exact_match ps path = None"
    using noexact by (simp add: exact_match_find find_None_iff)
  obtain pm cm where b: "build_maps ps (Map.empty, Map.empty) = (pm, cm)"
    by (cases "build_maps ps (Map.empty, Map.empty)")
  obtain seg0 segs where sp: "map strip (split_on CHR ''/'' path) = seg0 # segs"
    using split_on_nonempty[of "CHR ''/''" path]
    by (cases "map strip (split_on CHR ''/'' path)") simp_all
  have rc: "root_candidates ps seg0 = map pid (roots_by_truth ps seg0)"
    by (simp add: root_candidates_filter roots_by_truth_def)
  have "resolve_hierarchical_project ps path = Inr (resolve_path_by_truth ps path)"
    by (simp add: resolve_hierarchical_project_def resolve_path_by_truth_def sp b rc
        try_roots_by_truth[OF d nn b])
  with e slash show ?thesis by (simp add: resolve_def)
qed

theorem hierarchical_resolution_by_truth_witness:
  "resolve ex_projects ''Chores / Rotating Chore Queue'' = Inr (PStr ''p1'')
   \<and> resolve_path_by_truth ex_projects ''Chores / Rotating Chore Queue'' = PStr ''p1''
   \<and> resolve ex_projects ''Chores / Nothing'' = Inr PNone
   \<and> resolve ex_zero_forest ''A/b'' = Inr PNone"
proof -
  have slash: "CHR ''/'' \<in> set ''Chores / Rotating Chore Queue''" by simp
  have slash': "CHR ''/'' \<in> set ''Chores / Nothing''" by simp
  have slash'': "CHR ''/'' \<in> set ''A/b''" by simp
  have n: "\<forall>p\<in>set ex_projects.
      lower (strip (pname p)) \<noteq> lower (strip ''Chores / Rotating Chore Queue'')"
    by code_simp
  have n': "\<forall>p\<in>set ex_projects. lower (strip (pname p)) \<noteq> lower (strip ''Chores / Nothing'')"
    by code_simp
  have n'': "\<forall>p\<in>set ex_zero_forest. lower (strip (pname p)) \<noteq> lower (strip ''A/b'')"
    by code_simp
  have d: "distinct (map pid ex_projects)" by code_simp
  have d'': "distinct (map pid ex_zero_forest)" by code_simp
  have nn: "\<forall>p\<in>set ex_projects. pid p \<noteq> PNone" by code_simp
  have nn'': "\<forall>p\<in>set ex_zero_forest. pid p \<noteq> PNone" by code_simp
  have v: "resolve_path_by_truth ex_projects ''Chores / Rotating Chore Queue'' = PStr ''p1''"
    by code_simp
  have v': "resolve_path_by_truth ex_projects ''Chores / Nothing'' = PNone"
    by code_simp
  have v'': "resolve_path_by_truth ex_zero_forest ''A/b'' = PNone"
    by code_simp
  from hierarchical_resolution_by_truth[OF slash n d nn]
    hierarchical_resolution_by_truth[OF slash' n' d nn]
    hierarchical_resolution_by_truth[OF slash'' n'' d'' nn''] v v' v''
  show ?thesis by simp
qed

section \<open>Running twice\<close>

lemma store_update_task:
  "update_task (store_remote st) j f c = (Inr (), c\<lparr>calls := calls c @ [UpdateTask j f]\<rparr>)"
  by (simp add: update_task_def req_def store_remote_def)

lemma store_clear_rest:
  "clear_rest (store_remote st) lang rest n c =
     (Inr (n + length (filter (\<lambda>t. due t \<noteq> None) rest)),
      c\<lparr>calls := calls c @ clear_calls lang rest\<rparr>)"
proof (induction rest arbitrary: n c)
  case Nil
  show ?case by (simp add: clear_calls_def)
next
  case (Cons t rest)
  show ?case
    by (cases "due t = None") (simp_all add: store_update_task Cons.IH clear_calls_def)
qed

lemma store_get_tasks:
  "get_tasks (store_remote st) h i
     = Body (filter (\<lambda>t. project_id t = i) (st_tasks (store_after st h)))"
  by (simp add: store_remote_def)

lemma st_projects_apply_call: "st_projects (apply_call S k) = st_projects S"
  by (cases k) simp_all

lemma st_projects_foldl: "st_projects (foldl apply_call S h) = st_projects S"
  by (induction h arbitrary: S) (simp_all add: st_projects_apply_call)

lemma st_tasks_apply_call: "st_tasks (apply_call S k) = map (\<lambda>t. touch t k) (st_tasks S)"
  by (cases k) simp_all

lemma st_tasks_foldl: "st_tasks (foldl apply_call S h) = map (task_after h) (st_tasks S)"
proof (induction h arbitrary: S)
  case Nil
  show ?case by (simp add: task_after_def)
next
  case (Cons k h)
  show ?case by (simp add: Cons.IH st_tasks_apply_call task_after_def o_def)
qed

lemma store_after_append: "store_after st (h @ h') = foldl apply_call (store_after st h) h'"
  by (simp add: store_after_def)

lemma touch_frame:
  "tid (touch t k) = tid t \<and> project_id (touch t k) = project_id t
   \<and> content (touch t k) = content t \<and> created_at (touch t k) = created_at t"
proof (cases k)
  case (UpdateTask j f)
  then show ?thesis by (cases f) simp_all
qed simp_all

lemma task_after_frame:
  "tid (task_after h t) = tid t \<and> project_id (task_after h t) = project_id t
   \<and> content (task_after h t) = content t \<and> created_at (task_after h t) = created_at t"
  unfolding task_after_def
  by (induction h arbitrary: t) (simp_all add: touch_frame)

lemma task_after_append: "task_after (h @ h') t = task_after h' (task_after h t)"
  by (simp add: task_after_def)

lemma task_after_key: "parse_order_key (task_after h t) = parse_order_key t"
  by (simp add: parse_order_key_def task_after_frame)

lemma insort_key_map:
  assumes "\<And>z. k (f z) = k z"
  shows "insort_key k (f x) (map f ys) = map f (insort_key k x ys)"
  by (induction ys) (simp_all add: assms)

lemma sort_key_map:
  assumes "\<And>z. k (f z) = k z"
  shows "sort_key k (map f xs) = map f (sort_key k xs)"
  by (induction xs) (simp_all add: insort_key_map[of k f] assms)

lemma sort_tasks_task_after: "sort_tasks (map (task_after h) ts) = map (task_after h) (sort_tasks ts)"
  unfolding sort_tasks_def by (rule sort_key_map) (rule task_after_key)

lemma filter_project_task_after:
  "filter (\<lambda>t. project_id t = i) (map (task_after h) ts)
     = map (task_after h) (filter (\<lambda>t. project_id t = i) ts)"
  by (simp add: filter_map o_def task_after_frame)

lemma touch_no_due_write: "\<not> is_due_write k \<Longrightarrow> due (touch t k) = due t"
proof (cases k)
  case (UpdateTask j f)
  assume "\<not> is_due_write k"
  with UpdateTask show ?thesis by (cases f) simp_all
qed simp_all

lemma task_after_no_due_write:
  "\<forall>k\<in>set h. \<not> is_due_write k \<Longrightarrow> due (task_after h t) = due t"
  unfolding task_after_def
  by (induction h arbitrary: t) (simp_all add: touch_no_due_write)

lemma task_after_clear_none:
  "due t = None \<Longrightarrow> due (task_after (clear_calls lang xs) t) = None"
  unfolding task_after_def clear_calls_def
  by (induction xs arbitrary: t) simp_all

lemma task_after_clear_member:
  "t \<in> set xs \<Longrightarrow> due (task_after (clear_calls lang xs) t) = None"
proof (induction xs)
  case Nil
  then show ?case by simp
next
  case (Cons x xs)
  have split: "clear_calls lang (x # xs) =
      (if due x \<noteq> None then [UpdateTask (tid x) (Due ''no due date'' lang)] else [])
      @ clear_calls lang xs"
    by (simp add: clear_calls_def)
  show ?case
  proof (cases "due x = None")
    case True
    then have e: "task_after (clear_calls lang (x # xs)) t = task_after (clear_calls lang xs) t"
      by (simp add: split)
    show ?thesis
    proof (cases "t = x")
      case True
      with \<open>due x = None\<close> show ?thesis by (simp add: e task_after_clear_none)
    next
      case False
      with Cons show ?thesis by (simp add: e)
    qed
  next
    case False
    then have e: "task_after (clear_calls lang (x # xs)) t
        = task_after (clear_calls lang xs) (touch t (UpdateTask (tid x) (Due ''no due date'' lang)))"
      by (simp add: split task_after_def)
    show ?thesis
    proof (cases "tid t = tid x")
      case True
      then have "due (touch t (UpdateTask (tid x) (Due ''no due date'' lang))) = None" by simp
      then show ?thesis by (simp only: e task_after_clear_none)
    next
      case False
      then have "t \<noteq> x" by auto
      with Cons False show ?thesis by (simp add: e)
    qed
  qed
qed

lemma clear_calls_all_none:
  "\<forall>t\<in>set xs. due t = None \<Longrightarrow> clear_calls lang xs = []"
  by (simp add: clear_calls_def filter_empty_conv)

lemma title_task_after: "title (task_after h t) = title t"
  by (simp add: title_def task_after_frame)

lemma head_tid_not_in_rest:
  assumes d: "distinct (map tid ts)" and s: "sort_tasks ts = head # rest" and t: "t \<in> set rest"
  shows "tid t \<noteq> tid head"
proof -
  have "mset (map tid (sort_tasks ts)) = mset (map tid ts)"
    by (simp add: sort_tasks_def)
  then have "distinct (map tid (sort_tasks ts))"
    using d by (metis mset_eq_imp_distinct_iff)
  with s have n: "tid head \<notin> tid ` set rest" by simp
  show ?thesis
  proof
    assume "tid t = tid head"
    with t have "tid head \<in> tid ` set rest" by (metis imageI)
    with n show False by simp
  qed
qed

text \<open>
  C5, amended. On the reference service, with no other writer and with task
  identifiers that are distinct within the project, a run that promotes a task can be
  run again at once: the second run returns status \<open>ok\<close> for a head with the same
  identifier and the same title, its only update of a due date is the promotion of
  that same task, and the count it reports is 0, since the first run has already
  removed every due date it would remove. The two counts are equal only when the first
  run cleared nothing.
\<close>

theorem second_run_same_head_clears_nothing:
  assumes P: "get_projects (store_remote st) (calls c) = Body ps"
    and r: "resolve ps (project_name cf) = Inr i" and i: "truthy i"
    and T: "get_tasks (store_remote st) (calls c @ [ListProjects]) i = Body ts"
    and s: "sort_tasks ts = head # rest"
    and d: "distinct (map tid ts)"
  shows "\<exists>b1 c1 head2 b2 c2.
       promote_queue (store_remote st) cf c =
         (Inr (result_ok cf head
                 (if cfg_clear cf then length (filter (\<lambda>t. due t \<noteq> None) rest) else 0) b1), c1)
     \<and> promote_queue (store_remote st) cf c1 = (Inr (result_ok cf head2 0 b2), c2)
     \<and> tid head2 = tid head \<and> title head2 = title head
     \<and> filter is_due_write (drop (length (calls c1)) (calls c2))
         = [UpdateTask (tid head) (Due (cfg_due_string cf) (cfg_language cf))]"
proof -
  let ?R = "store_remote st"
  let ?ds = "cfg_due_string cf"
  let ?lang = "cfg_language cf"
  let ?n1 = "if cfg_clear cf then length (filter (\<lambda>t. due t \<noteq> None) rest) else 0"
  let ?c3 = "c\<lparr>calls := calls c @ [ListProjects, ListTasks i, UpdateTask (tid head) (Due ?ds ?lang)]\<rparr>"
  let ?c4 = "before_labeling cf c i head rest"
  have U: "update_task ?R (tid head) (Due ?ds ?lang)
      (c\<lparr>calls := calls c @ [ListProjects, ListTasks i]\<rparr>) = (Inr (), ?c3)"
    by (simp add: store_update_task)
  have C: "(if cfg_clear cf then clear_rest ?R ?lang rest 0 ?c3 else (Inr 0, ?c3))
      = (Inr ?n1, ?c4)"
    by (simp add: store_clear_rest before_labeling_def)
  obtain b1 c1 where L: "labeling ?R cf head ?c4 = (b1, c1)"
    by (cases "labeling ?R cf head ?c4")
  have run1: "promote_queue ?R cf c = (Inr (result_ok cf head ?n1 b1), c1)"
    by (rule promote_queue_forward[OF P r i T s U C L])
  from labeling_calls[OF L] obtain lc where lc: "calls c1 = calls ?c4 @ lc"
    and lcd: "\<forall>k\<in>set lc. \<not> is_due_write k" by blast
  define pre where "pre = [ListProjects, ListTasks i, UpdateTask (tid head) (Due ?ds ?lang)]"
  define clr where "clr = (if cfg_clear cf then clear_calls ?lang rest else [])"
  define F where "F = task_after (pre @ clr @ lc)"
  have c1: "calls c1 = calls c @ pre @ clr @ lc"
    by (simp add: lc before_labeling_def pre_def clr_def)
  have frame: "tid (F t) = tid t" "title (F t) = title t" for t
    by (simp_all add: F_def task_after_frame title_task_after)
  \<comment> \<open>the second snapshot\<close>
  have ps: "ps = st_projects st"
    using P by (simp add: store_get_projects store_after_def st_projects_foldl)
  have P2: "get_projects ?R (calls c1) = Body ps"
    by (simp add: store_get_projects store_after_def st_projects_foldl ps)
  have ts: "ts = filter (\<lambda>t. project_id t = i) (st_tasks (store_after st (calls c)))"
    using T by (simp add: store_get_tasks store_after_append st_tasks_foldl task_after_def)
  have "st_tasks (store_after st (calls c1 @ [ListProjects]))
      = map (task_after ((pre @ clr @ lc) @ [ListProjects])) (st_tasks (store_after st (calls c)))"
    unfolding c1 by (simp only: append_assoc[symmetric] store_after_append st_tasks_foldl)
      (simp add: store_after_append st_tasks_foldl task_after_def)
  also have "task_after ((pre @ clr @ lc) @ [ListProjects]) = F"
    by (rule ext) (simp add: F_def task_after_def)
  finally have T2: "get_tasks ?R (calls c1 @ [ListProjects]) i = Body (map F ts)"
    by (simp add: store_get_tasks ts F_def filter_project_task_after)
  have s2: "sort_tasks (map F ts) = F head # map F rest"
    by (simp add: F_def sort_tasks_task_after s)
  let ?c3' = "c1\<lparr>calls := calls c1 @ [ListProjects, ListTasks i,
      UpdateTask (tid (F head)) (Due ?ds ?lang)]\<rparr>"
  let ?c4' = "before_labeling cf c1 i (F head) (map F rest)"
  have U2: "update_task ?R (tid (F head)) (Due ?ds ?lang)
      (c1\<lparr>calls := calls c1 @ [ListProjects, ListTasks i]\<rparr>) = (Inr (), ?c3')"
    by (simp add: store_update_task)
  have none: "due (F t) = None" if t: "t \<in> set rest" and cl: "cfg_clear cf" for t
  proof -
    from head_tid_not_in_rest[OF d s t] have "task_after pre t = t"
      by (simp add: pre_def task_after_def)
    moreover have "due (task_after clr t) = None"
      using cl t by (simp add: clr_def task_after_clear_member)
    ultimately show ?thesis
      by (simp add: F_def task_after_append task_after_no_due_write[OF lcd])
  qed
  have clr2: "(if cfg_clear cf then clear_calls ?lang (map F rest) else []) = []"
    using none by (simp add: clear_calls_all_none)
  have n2: "(if cfg_clear cf then length (filter (\<lambda>t. due t \<noteq> None) (map F rest)) else 0) = 0"
    using none by (simp add: filter_empty_conv)
  have C2: "(if cfg_clear cf then clear_rest ?R ?lang (map F rest) 0 ?c3' else (Inr 0, ?c3'))
      = (Inr 0, ?c4')"
  proof (cases "cfg_clear cf")
    case True
    with n2 have "length (filter (\<lambda>t. due t \<noteq> None) (map F rest)) = 0" by simp
    with True show ?thesis by (simp only: store_clear_rest) (simp add: before_labeling_def)
  next
    case False
    then show ?thesis by (simp add: before_labeling_def)
  qed
  obtain b2 c2 where L2: "labeling ?R cf (F head) ?c4' = (b2, c2)"
    by (cases "labeling ?R cf (F head) ?c4'")
  have run2: "promote_queue ?R cf c1 = (Inr (result_ok cf (F head) 0 b2), c2)"
    by (rule promote_queue_forward[OF P2 r i T2 s2 U2 C2 L2])
  from labeling_calls[OF L2] obtain lc2 where lc2: "calls c2 = calls ?c4' @ lc2"
    and lcd2: "\<forall>k\<in>set lc2. \<not> is_due_write k" by blast
  have f2: "filter is_due_write lc2 = []" using lcd2 by (simp add: filter_empty_conv)
  have "drop (length (calls c1)) (calls c2)
      = [ListProjects, ListTasks i, UpdateTask (tid (F head)) (Due ?ds ?lang)] @ lc2"
    using clr2 by (simp add: lc2 before_labeling_def)
  then have w: "filter is_due_write (drop (length (calls c1)) (calls c2))
      = [UpdateTask (tid head) (Due ?ds ?lang)]"
    by (simp add: f2 frame)
  show ?thesis
    apply (rule exI[of _ b1], rule exI[of _ c1], rule exI[of _ "F head"],
        rule exI[of _ b2], rule exI[of _ c2])
    apply (intro conjI)
        apply (rule run1)
       apply (rule run2)
      apply (rule frame(1))
     apply (rule frame(2))
    apply (rule w)
    done
qed


theorem second_run_same_head_clears_nothing_witness:
  "\<exists>b1 c1 head2 b2 c2.
       promote_queue (store_remote ex_store) ex_cfg fresh_client
         = (Inr (result_ok ex_cfg ex_trash 1 b1), c1)
     \<and> promote_queue (store_remote ex_store) ex_cfg c1 = (Inr (result_ok ex_cfg head2 0 b2), c2)
     \<and> tid head2 = PStr ''b'' \<and> title head2 = ''02 trash''
     \<and> filter is_due_write (drop (length (calls c1)) (calls c2))
         = [UpdateTask (PStr ''b'') (Due ''today'' ''en'')]"
proof -
  have i: "truthy (PStr ''p1'')" by simp
  have dist: "distinct (map tid [ex_dishes, ex_trash, ex_wipe])" by code_simp
  have cl: "cfg_clear ex_cfg" by code_simp
  have d: "cfg_due_string ex_cfg = ''today''" and l: "cfg_language ex_cfg = ''en''"
    by code_simp+
  have h: "tid ex_trash = PStr ''b''" by (simp add: ex_trash_def)
  have t: "title ex_trash = ''02 trash''" by code_simp
  have n: "(if cfg_clear ex_cfg
            then length (filter (\<lambda>t. due t \<noteq> None) [ex_dishes, ex_wipe]) else 0) = 1"
    by (simp add: cl ex_dishes_def ex_wipe_def)
  note th = second_run_same_head_clears_nothing[OF ex_P ex_r i ex_T ex_s dist]
  from th[unfolded n d l h t] show ?thesis .
qed

text \<open>
  C5, as stated, fails on the scenario: the first run clears one due date and reports
  1, the second run, on the state the first one left, promotes the same task and
  reports 0.
\<close>

theorem second_run_count_differs:
  "promote_queue (store_remote ex_store) ex_cfg fresh_client =
     (Inr \<lparr>project = ''Chores / Rotating Chore Queue'', status = ok,
            promoted_task = Some ''02 trash'', cleared_due_on = Some 1, labeled = Some True\<rparr>,
      \<lparr>calls = [ListProjects, ListTasks (PStr ''p1''),
                UpdateTask (PStr ''b'') (Due ''today'' ''en''),
                UpdateTask (PStr ''c'') (Due ''no due date'' ''en''), ListLabels,
                CreateLabel ''@next'', UpdateTask (PStr ''b'') (Labels [PInt 1])],
        label_cache = None\<rparr>)
   \<and> fst (promote_queue (store_remote ex_store) ex_cfg
       \<lparr>calls = [ListProjects, ListTasks (PStr ''p1''),
                UpdateTask (PStr ''b'') (Due ''today'' ''en''),
                UpdateTask (PStr ''c'') (Due ''no due date'' ''en''), ListLabels,
                CreateLabel ''@next'', UpdateTask (PStr ''b'') (Labels [PInt 1])],
        label_cache = None\<rparr>) =
     Inr \<lparr>project = ''Chores / Rotating Chore Queue'', status = ok,
           promoted_task = Some ''02 trash'', cleared_due_on = Some 0, labeled = Some True\<rparr>"
  by code_simp

end
